theory Spec2Isabelle
  imports Complex_Main "HOL-Library.Sublist"
begin

section \<open>The date input widget (src/components/ha-date-input.ts)\<close>

text \<open>
  The component holds the properties \<open>value\<close> (a string or \<open>undefined\<close>),
  \<open>min\<close>, \<open>max\<close>, \<open>disabled\<close> and \<open>canClear\<close>. Its handlers change
  \<open>value\<close> and dispatch DOM events through \<open>fireEvent\<close>; the events dispatched
  are kept in \<open>di_fired\<close>, oldest first. The date-picker dialog itself is another
  component: it receives the closure \<open>onChange\<close> in the parameters of the
  \<open>show-dialog\<close> event and calls it with the date the user picked.
\<close>

record DatePickerDialogParams =
  dp_value :: "string option"
  dp_min :: "string option"
  dp_max :: "string option"
  dp_canClear :: bool

datatype dom_event =
    EvChange
  | EvValueChanged "string option"
  | EvShowDialog DatePickerDialogParams

record HaDateInput =
  di_value :: "string option"
  di_min :: "string option"
  di_max :: "string option"
  di_disabled :: bool
  di_canClear :: bool
  di_fired :: "dom_event list"

text \<open>\<open>_valueChanged(value)\<close>: assigns and fires only when the value differs.\<close>

definition valueChanged :: "HaDateInput \<Rightarrow> string option \<Rightarrow> HaDateInput" where
  "valueChanged s v =
     (if di_value s \<noteq> v
      then s\<lparr>di_value := v, di_fired := di_fired s @ [EvChange, EvValueChanged v]\<rparr>
      else s)"

text \<open>\<open>_keyDown(ev)\<close>, with \<open>ev.key\<close> as the argument.\<close>

definition keyDown :: "HaDateInput \<Rightarrow> string \<Rightarrow> HaDateInput" where
  "keyDown s key =
     (if \<not> di_canClear s then s
      else if key \<in> set [''Backspace'', ''Delete''] then valueChanged s None
      else s)"

text \<open>
  \<open>_openDialog()\<close>: \<open>this.min || "1970-01-01"\<close> replaces an undefined or empty
  \<open>min\<close>.
\<close>

definition openDialog :: "HaDateInput \<Rightarrow> HaDateInput" where
  "openDialog s =
     (if di_disabled s then s
      else s\<lparr>di_fired := di_fired s @
        [EvShowDialog \<lparr>dp_value = di_value s,
           dp_min = (case di_min s of None \<Rightarrow> Some ''1970-01-01''
                     | Some m \<Rightarrow> if m = [] then Some ''1970-01-01'' else Some m),
           dp_max = di_max s,
           dp_canClear = di_canClear s\<rparr>]\<rparr>)"

text \<open>
  What can happen to the widget: a click on the text field, a key press in it, and the
  dialog calling \<open>onChange\<close>.
\<close>

datatype date_input_action =
    Click
  | KeyPress string
  | DialogOnChange "string option"

fun date_input_step :: "HaDateInput \<Rightarrow> date_input_action \<Rightarrow> HaDateInput" where
  "date_input_step s Click = openDialog s"
| "date_input_step s (KeyPress key) = keyDown s key"
| "date_input_step s (DialogOnChange v) = valueChanged s v"

text \<open>The \<open>change\<close> and \<open>value-changed\<close> events among the dispatched ones.\<close>

fun is_change_event :: "dom_event \<Rightarrow> bool" where
  "is_change_event EvChange = True"
| "is_change_event (EvValueChanged v) = True"
| "is_change_event (EvShowDialog p) = False"

definition change_events :: "HaDateInput \<Rightarrow> dom_event list" where
  "change_events s = filter is_change_event (di_fired s)"


section \<open>The cloud sign-in step (src/dialogs/voice-assistant-setup/cloud/cloud-step-signin.ts)\<close>

text \<open>
  A rejection of \<open>cloudLogin\<close> carries \<open>err\<close>; the handler reads
  \<open>err.body.code\<close> and \<open>err.body.message\<close> behind \<open>err && err.body &&\<close>,
  so an \<open>err\<close> that is falsy or has no body is \<open>None\<close> here.
\<close>

record err_body =
  body_code :: "string option"
  body_message :: "string option"

datatype login_result = LoginOk | LoginRejected "err_body option"

datatype field = EmailField | PasswordField

text \<open>Everything the handler does to the outside, in order.\<close>

datatype effect =
    ReportValidity field
  | Focus field
  | CloudLoginCall string string
  | ShowAlertDialog string
  | Navigate string
  | FireEvent string

record CloudStepSignin =
  requestInProgress :: bool
  error :: "string option"
  effects :: "effect list"

text \<open>
  The surroundings of one call of \<open>_handleLogin\<close>: the two field values, what
  \<open>reportValidity()\<close> answers for each field, \<open>hass.localize\<close>, the backend, and
  \<open>String.prototype.toLowerCase\<close>. The backend answers a call knowing the calls this
  component made before it, so it may answer the same credentials differently the second
  time. The lower-casing of the language is a parameter too: nothing is fixed about it
  here, and what is proved of the handler names what it needs of it.
\<close>

record login_env =
  email :: string
  password :: string
  emailValid :: bool
  passwordValid :: bool
  localize :: "string \<Rightarrow> string"
  toLowerCase :: "string \<Rightarrow> string"
  cloudLogin :: "(string \<times> string) list \<Rightarrow> string \<Rightarrow> string \<Rightarrow> login_result"

fun login_calls :: "effect list \<Rightarrow> (string \<times> string) list" where
  "login_calls [] = []"
| "login_calls (CloudLoginCall u p # es) = (u, p) # login_calls es"
| "login_calls (e # es) = login_calls es"

definition errCode :: "err_body option \<Rightarrow> string option" where
  "errCode err = (case err of None \<Rightarrow> None | Some b \<Rightarrow> body_code b)"

text \<open>
  \<open>err && err.body && err.body.message ? err.body.message : "Unknown error"\<close>:
  an empty message is falsy.
\<close>

definition errMessage :: "err_body option \<Rightarrow> string" where
  "errMessage err =
     (case err of None \<Rightarrow> ''Unknown error''
      | Some b \<Rightarrow>
          (case body_message b of None \<Rightarrow> ''Unknown error''
           | Some m \<Rightarrow> if m = [] then ''Unknown error'' else m))"

text \<open>
  \<open>doLogin\<close> calls itself with the lower-cased user name. With a lower-casing that keeps
  changing its argument and a backend that keeps answering \<open>usernotfound\<close> it would not
  return, so its result is an option: \<open>None\<close> is not returning.
\<close>

partial_function (option) doLogin ::
  "login_env \<Rightarrow> CloudStepSignin \<Rightarrow> string \<Rightarrow> CloudStepSignin option" where
  "doLogin env s username =
     (let s1 = s\<lparr>effects := effects s @ [CloudLoginCall username (password env)]\<rparr>
      in case cloudLogin env (login_calls (effects s)) username (password env) of
           LoginOk \<Rightarrow> Some s1
         | LoginRejected err \<Rightarrow>
             if errCode err = Some ''usernotfound'' \<and> username \<noteq> toLowerCase env username
             then doLogin env s1 (toLowerCase env username)
             else if errCode err = Some ''PasswordChangeRequired''
             then Some (s1\<lparr>effects := effects s1 @
                    [ShowAlertDialog
                       (localize env ''ui.panel.config.cloud.login.alert_password_change_required''),
                     Navigate ''/config/cloud/forgot-password'',
                     FireEvent ''closed'']\<rparr>)
             else Some (s1\<lparr>requestInProgress := False,
                    error :=
                      Some (if errCode err = Some ''UserNotConfirmed''
                            then localize env ''ui.panel.config.cloud.login.alert_email_confirm_necessary''
                            else errMessage err),
                    effects := effects s1 @ [Focus EmailField]\<rparr>))"

definition handleLogin :: "login_env \<Rightarrow> CloudStepSignin \<Rightarrow> CloudStepSignin option" where
  "handleLogin env s =
     (if \<not> emailValid env
      then Some (s\<lparr>effects := effects s @
             [ReportValidity EmailField, ReportValidity PasswordField, Focus EmailField]\<rparr>)
      else if \<not> passwordValid env
      then Some (s\<lparr>effects := effects s @
             [ReportValidity EmailField, ReportValidity PasswordField, Focus PasswordField]\<rparr>)
      else doLogin env
             (s\<lparr>requestInProgress := True,
                effects := effects s @
                  [ReportValidity EmailField, ReportValidity PasswordField]\<rparr>)
             (email env))"

text \<open>
  What \<open>render()\<close> shows of the state: the inline alert (\<open>this._error ? ... : ""\<close>,
  so an empty string shows nothing) and whether the fields and the button are disabled.
\<close>

record signin_view =
  alert :: "string option"
  inputsDisabled :: bool

definition render_signin :: "CloudStepSignin \<Rightarrow> signin_view" where
  "render_signin s =
     \<lparr>alert = (case error s of None \<Rightarrow> None
               | Some e \<Rightarrow> if e = [] then None else Some e),
      inputsDisabled = requestInProgress s\<rparr>"

text \<open>
  Notions used to state what the handler does. \<open>is_usernotfound\<close> reads the code the
  retry looks at, and \<open>retried\<close> says whether the first call is repeated.
  \<open>login_attempts\<close> are the calls of the backend the handler then makes, and
  \<open>last_login_result\<close> is the answer to the last of them. \<open>rejection_text\<close> is the
  string assigned to \<open>_error\<close>.
\<close>

definition is_usernotfound :: "login_result \<Rightarrow> bool" where
  "is_usernotfound r =
     (case r of LoginOk \<Rightarrow> False
      | LoginRejected err \<Rightarrow> errCode err = Some ''usernotfound'')"

definition retried :: "login_env \<Rightarrow> CloudStepSignin \<Rightarrow> bool" where
  "retried env s =
     (is_usernotfound (cloudLogin env (login_calls (effects s)) (email env) (password env))
      \<and> email env \<noteq> toLowerCase env (email env))"

definition login_attempts :: "login_env \<Rightarrow> CloudStepSignin \<Rightarrow> (string \<times> string) list" where
  "login_attempts env s =
     (email env, password env) #
       (if retried env s then [(toLowerCase env (email env), password env)] else [])"

definition last_login_result :: "login_env \<Rightarrow> CloudStepSignin \<Rightarrow> login_result" where
  "last_login_result env s =
     (if retried env s
      then cloudLogin env (login_calls (effects s) @ [(email env, password env)])
             (toLowerCase env (email env)) (password env)
      else cloudLogin env (login_calls (effects s)) (email env) (password env))"

definition rejection_text :: "login_env \<Rightarrow> err_body option \<Rightarrow> string" where
  "rejection_text env err =
     (if errCode err = Some ''UserNotConfirmed''
      then localize env ''ui.panel.config.cloud.login.alert_email_confirm_necessary''
      else errMessage err)"

text \<open>
  For the examples: lower-casing of the letters A to Z, which is what
  \<open>String.prototype.toLowerCase\<close> does to a string of ASCII characters.
\<close>

definition ascii_lower_char :: "char \<Rightarrow> char" where
  "ascii_lower_char c =
     (let n = (of_char c :: nat)
      in if 65 \<le> n \<and> n \<le> 90 then char_of (n + 32) else c)"

definition ascii_toLowerCase :: "string \<Rightarrow> string" where
  "ascii_toLowerCase s = map ascii_lower_char s"


section \<open>The chart base component (src/components/chart/ha-chart-base.ts)\<close>

text \<open>
  The part of the component that guards against a loop of y-axis padding updates: the
  property \<open>paddingYAxis\<close>, the private fields \<open>_paddingUpdateCount\<close>,
  \<open>_paddingUpdateLock\<close> and \<open>_paddingYAxisInternal\<close> (the padding \<open>render\<close> puts into
  the style of the chart container), and the number of times the component has rendered.
  The rest of \<open>willUpdate\<close> (dataset order, hidden datasets, the chart.js object) reads and
  writes none of these fields.

  \<open>changedProps\<close> is the list of the names of the changed properties (the keys of the
  map the framework passes).
\<close>

record HaChartBase =
  paddingYAxis :: real
  paddingUpdateCount :: nat
  paddingUpdateLock :: bool
  paddingYAxisInternal :: real
  clearTimer :: "nat option"
  renders :: nat

text \<open>\<open>changedProps.size === 1 && changedProps.has("paddingYAxis")\<close>\<close>

definition only_padding_changed :: "string list \<Rightarrow> bool" where
  "only_padding_changed changedProps =
     (length changedProps = 1 \<and> ''paddingYAxis'' \<in> set changedProps)"

definition shouldUpdate :: "HaChartBase \<Rightarrow> string list \<Rightarrow> bool" where
  "shouldUpdate s changedProps =
     (if paddingUpdateLock s \<and> only_padding_changed changedProps then False else True)"

text \<open>
  Modelled from the spec: the helper \<open>debounce\<close> (common/util/debounce) is not among the
  sources. \<open>_debouncedClearUpdates\<close> is \<open>debounce(f, 2000, false)\<close> with \<open>f\<close> setting
  \<open>_paddingUpdateCount\<close> to 0: every call (re)starts a timer of 2000 ms, and \<open>f\<close> runs
  when the timer runs out, that is after a quiet period of two seconds.
  \<open>clearTimer\<close> holds the milliseconds left on the timer.
\<close>

definition debouncedClearUpdates :: "HaChartBase \<Rightarrow> HaChartBase" where
  "debouncedClearUpdates s = s\<lparr>clearTimer := Some 2000\<rparr>"

definition willUpdate :: "HaChartBase \<Rightarrow> string list \<Rightarrow> HaChartBase" where
  "willUpdate s changedProps =
     (if \<not> paddingUpdateLock s
      then let s1 = s\<lparr>paddingYAxisInternal := paddingYAxis s\<rparr>
           in if only_padding_changed changedProps
              then let s2 = s1\<lparr>paddingUpdateCount := paddingUpdateCount s1 + 1\<rparr>
                   in if paddingUpdateCount s2 > 300
                      then s2\<lparr>paddingUpdateLock := True\<rparr>
                      else debouncedClearUpdates s2
              else s1
      else s)"

text \<open>
  The update cycle of the component framework (Lit): \<open>shouldUpdate\<close> is asked first, and
  only when it answers true are \<open>willUpdate\<close> and then \<open>render\<close> called.
\<close>

definition performUpdate :: "HaChartBase \<Rightarrow> string list \<Rightarrow> HaChartBase" where
  "performUpdate s changedProps =
     (if shouldUpdate s changedProps
      then (willUpdate s changedProps)\<lparr>renders := renders s + 1\<rparr>
      else s)"

text \<open>
  What happens to the component: an update after properties were assigned (with the
  value \<open>paddingYAxis\<close> then has, when it is among the changed ones), and time passing.
\<close>

datatype chart_action =
    Update real "string list"
  | Elapse nat

fun chart_step :: "HaChartBase \<Rightarrow> chart_action \<Rightarrow> HaChartBase" where
  "chart_step s (Update p changedProps) =
     performUpdate
       (if ''paddingYAxis'' \<in> set changedProps then s\<lparr>paddingYAxis := p\<rparr> else s)
       changedProps"
| "chart_step s (Elapse ms) =
     (case clearTimer s of
        None \<Rightarrow> s
      | Some d \<Rightarrow>
          if d \<le> ms then s\<lparr>paddingUpdateCount := 0, clearTimer := None\<rparr>
          else s\<lparr>clearTimer := Some (d - ms)\<rparr>)"


section \<open>The statistics chart (src/components/chart/statistics-chart.ts)\<close>

subsection \<open>Data\<close>

text \<open>
  A statistic is a list of buckets (\<open>StatisticValue\<close>, declared in data/recorder): start
  and end time in milliseconds and, per statistic type, a number or nothing
  (\<open>null\<close> or \<open>undefined\<close>). Times are integers within the range of a JavaScript
  \<open>Date\<close>, so that \<open>new Date(t).getTime()\<close> is \<open>t\<close> and dates compare as their times
  do. The values are the numbers of the language, IEEE doubles: their type \<open>'n\<close> is left
  open, and the number 0, the subtraction and the truthiness of a number are taken from the
  environment (\<open>num_zero\<close>, \<open>num_minus\<close>, \<open>num_truthy\<close>), so that what is proved
  holds for doubles as they are, with their rounding, infinities and NaN.
\<close>

datatype StatisticType = T_mean | T_min | T_max | T_sum | T_state | T_change

record 'n StatisticValue =
  stat_start :: int
  stat_end :: int
  stat_mean :: "'n option"
  stat_min :: "'n option"
  stat_max :: "'n option"
  stat_sum :: "'n option"
  stat_state :: "'n option"
  stat_change :: "'n option"

text \<open>\<open>stat[type]\<close>\<close>

fun stat_field :: "'n StatisticValue \<Rightarrow> StatisticType \<Rightarrow> 'n option" where
  "stat_field stat T_mean = stat_mean stat"
| "stat_field stat T_min = stat_min stat"
| "stat_field stat T_max = stat_max stat"
| "stat_field stat T_sum = stat_sum stat"
| "stat_field stat T_state = stat_state stat"
| "stat_field stat T_change = stat_change stat"

fun type_name :: "StatisticType \<Rightarrow> string" where
  "type_name T_mean = ''mean''"
| "type_name T_min = ''min''"
| "type_name T_max = ''max''"
| "type_name T_sum = ''sum''"
| "type_name T_state = ''state''"
| "type_name T_change = ''change''"

text \<open>
  \<open>Statistics\<close> is an object from statistic ids to bucket lists; it is kept here as the
  list \<open>Object.entries\<close> gives.
\<close>

type_synonym 'n Statistics = "(string \<times> 'n StatisticValue list) list"

record StatisticsMetaData =
  unit_of_measurement :: "string option"

datatype ChartType = Line | Bar | Scatter | Bubble | Pie | Doughnut | PolarArea | Radar

record 'n point =
  pt_x :: int
  pt_y :: "'n option"

text \<open>The \<open>fill\<close> of a dataset: \<open>"+1"\<close>, \<open>"-1"\<close> or \<open>false\<close>.\<close>

datatype fill_mode = FillToNext | FillToPrevious | NoFill

record 'n ChartDataset =
  ds_label :: string
  ds_fill :: fill_mode
  ds_borderColor :: string
  ds_backgroundColor :: string
  ds_pointRadius :: nat
  ds_hidden :: bool
  ds_data :: "'n point list"
  ds_unit :: "string option"
  ds_band :: bool

record ChartDatasetExtra =
  legend_label :: string
  show_legend :: bool

text \<open>
  What the component takes from outside its file: \<open>hass.localize\<close>, the clock, and the
  helpers of other modules, none of which is among the sources. Each helper is a
  parameter here, so that what is proved holds whatever the helper computes.
  \<open>getStatisticsMetaData\<close> is the answer of the backend to the metadata request, awaited
  when the property \<open>metadata\<close> is not set.
\<close>

record 'n chart_env =
  chart_localize :: "string \<Rightarrow> string"
  isComponentLoaded :: "string \<Rightarrow> bool"
  getStatisticLabel :: "string \<Rightarrow> StatisticsMetaData option \<Rightarrow> string"
  getGraphColorByIndex :: "nat \<Rightarrow> string"
  statisticsHaveType :: "'n StatisticValue list \<Rightarrow> StatisticType \<Rightarrow> bool"
  getStatisticsMetaData :: "string list \<Rightarrow> (string \<rightharpoonup> StatisticsMetaData)"
  now :: int
  num_zero :: "'n"
  num_minus :: "'n \<Rightarrow> 'n \<Rightarrow> 'n"
  num_truthy :: "'n \<Rightarrow> bool"

text \<open>
  The properties of the component that \<open>render\<close> and \<open>_generateData\<close> read, and the
  state \<open>_generateData\<close> writes (\<open>_chartData.datasets\<close>, \<open>_chartDatasetExtra\<close>,
  \<open>_statisticIds\<close>). The unit of the y axis, which \<open>_generateData\<close> also works out and
  hands to \<open>_createOptions\<close>, plays no part in the datasets and is left out.
\<close>

record 'n StatisticsChart =
  statisticsData :: "'n Statistics option"
  metadata :: "(string \<rightharpoonup> StatisticsMetaData) option"
  names :: "(string \<rightharpoonup> string) option"
  endTime :: "int option"
  statTypes :: "StatisticType list"
  chartType :: ChartType
  hideLegend :: bool
  isLoadingData :: bool
  hiddenStats :: "string set"
  chartData :: "'n ChartDataset list"
  chartDatasetExtra :: "ChartDatasetExtra list"
  statisticIds :: "string list"

subsection \<open>render\<close>

datatype 'n chart_view =
    Info string
  | ChartBase "'n ChartDataset list" "ChartDatasetExtra list" ChartType

definition render :: "'n chart_env \<Rightarrow> 'n StatisticsChart \<Rightarrow> 'n chart_view" where
  "render env c =
     (if \<not> isComponentLoaded env ''history''
      then Info (chart_localize env ''ui.components.history_charts.history_disabled'')
      else if isLoadingData c \<and> statisticsData c = None
      then Info (chart_localize env ''ui.components.statistics_charts.loading_statistics'')
      else if (case statisticsData c of None \<Rightarrow> True | Some sd \<Rightarrow> sd = [])
      then Info (chart_localize env ''ui.components.statistics_charts.no_statistics_found'')
      else ChartBase (chartData c) (chartDatasetExtra c) (chartType c))"

subsection \<open>The datasets of one statistic\<close>

definition hasMean :: "'n chart_env \<Rightarrow> 'n StatisticsChart \<Rightarrow> 'n StatisticValue list \<Rightarrow> bool" where
  "hasMean env c stats =
     (T_mean \<in> set (statTypes c) \<and> statisticsHaveType env stats T_mean)"

definition drawBands :: "'n chart_env \<Rightarrow> 'n StatisticsChart \<Rightarrow> 'n StatisticValue list \<Rightarrow> bool" where
  "drawBands env c stats =
     (hasMean env c stats \<or>
      (T_min \<in> set (statTypes c) \<and> statisticsHaveType env stats T_min \<and>
       T_max \<in> set (statTypes c) \<and> statisticsHaveType env stats T_max))"

text \<open>
  \<open>[...this.statTypes].sort(compare)\<close>: the comparison puts \<open>min\<close> before everything and
  \<open>max\<close> after everything, and ties every other pair; the sort is stable. (For a list
  with \<open>min\<close> or \<open>max\<close> twice the comparison is not consistent and the language leaves
  the order to the implementation; this is the order a stable sort by those ranks gives.)
\<close>

definition sortTypes :: "StatisticType list \<Rightarrow> StatisticType list" where
  "sortTypes ts =
     filter (\<lambda>t. t = T_min) ts @ filter (\<lambda>t. t \<noteq> T_min \<and> t \<noteq> T_max) ts
       @ filter (\<lambda>t. t = T_max) ts"

definition sortedTypes :: "'n chart_env \<Rightarrow> 'n StatisticsChart \<Rightarrow> 'n StatisticValue list \<Rightarrow> StatisticType list" where
  "sortedTypes env c stats =
     (if drawBands env c stats then sortTypes (statTypes c) else statTypes c)"

definition type_label :: "'n chart_env \<Rightarrow> StatisticType \<Rightarrow> string" where
  "type_label env t =
     chart_localize env (''ui.components.statistics_charts.statistic_types.'' @ type_name t)"

text \<open>
  The dataset pushed for a type, with no data yet. The label template ends in a line
  break and the twelve blanks before the closing backtick.
\<close>

definition newDataset ::
  "'n chart_env \<Rightarrow> 'n StatisticsChart \<Rightarrow> 'n StatisticValue list \<Rightarrow> StatisticsMetaData option \<Rightarrow>
   string \<Rightarrow> string \<Rightarrow> string \<Rightarrow> StatisticType \<Rightarrow> 'n ChartDataset" where
  "newDataset env c stats meta name color statistic_id t =
     (let band = (drawBands env c stats \<and> (t = T_min \<or> t = T_max))
      in \<lparr>ds_label =
            (if name \<noteq> []
             then name @ '' ('' @ type_label env t @ '')'' @ [CHR 0x0A] @ replicate 12 CHR '' ''
             else type_label env t),
          ds_fill =
            (if drawBands env c stats
             then (if t = T_min \<and> hasMean env c stats then FillToNext
                   else if t = T_max then FillToPrevious else NoFill)
             else NoFill),
          ds_borderColor =
            (if band \<and> hasMean env c stats
             then color @ (if hideLegend c then ''00'' else ''7F'')
             else color),
          ds_backgroundColor = (if band then color @ ''3F'' else color @ ''7F''),
          ds_pointRadius = 0,
          ds_hidden = (if \<not> hideLegend c then statistic_id \<in> hiddenStats c else False),
          ds_data = [],
          ds_unit = (case meta of None \<Rightarrow> None | Some m \<Rightarrow> unit_of_measurement m),
          ds_band = band\<rparr>)"

text \<open>
  The loop \<open>sortedTypes.forEach\<close>: its state is \<open>displayed_legend\<close>, the extras, the
  types and the datasets of the current statistic, and the statistic ids pushed.
\<close>

record 'n type_loop =
  displayed_legend :: bool
  statDatasetExtras :: "ChartDatasetExtra list"
  presentTypes :: "StatisticType list"
  statDataSets :: "'n ChartDataset list"
  pushedIds :: "string list"

definition typeStep ::
  "'n chart_env \<Rightarrow> 'n StatisticsChart \<Rightarrow> 'n StatisticValue list \<Rightarrow> StatisticsMetaData option \<Rightarrow>
   string \<Rightarrow> string \<Rightarrow> string \<Rightarrow> 'n type_loop \<Rightarrow> StatisticType \<Rightarrow> 'n type_loop" where
  "typeStep env c stats meta name color statistic_id st t =
     (if statisticsHaveType env stats t
      then
        (let shown = (if hasMean env c stats then t = T_mean else displayed_legend st = False);
             st1 = (if \<not> hideLegend c
                    then st\<lparr>statDatasetExtras := statDatasetExtras st @
                              [\<lparr>legend_label = name, show_legend = shown\<rparr>],
                            displayed_legend := (displayed_legend st \<or> shown)\<rparr>
                    else st)
         in st1\<lparr>presentTypes := presentTypes st1 @ [t],
                statDataSets := statDataSets st1 @
                  [newDataset env c stats meta name color statistic_id t],
                pushedIds := pushedIds st1 @ [statistic_id]\<rparr>)
      else st)"

definition typeLoop ::
  "'n chart_env \<Rightarrow> 'n StatisticsChart \<Rightarrow> 'n StatisticValue list \<Rightarrow> StatisticsMetaData option \<Rightarrow>
   string \<Rightarrow> string \<Rightarrow> string \<Rightarrow> 'n type_loop" where
  "typeLoop env c stats meta name color statistic_id =
     foldl (typeStep env c stats meta name color statistic_id)
       \<lparr>displayed_legend = False, statDatasetExtras = [], presentTypes = [],
        statDataSets = [], pushedIds = []\<rparr>
       (sortedTypes env c stats)"

text \<open>
  Reading an array at an index: \<open>undefined\<close> beyond its end (taken as no value, as
  \<open>null\<close> is).
\<close>

definition js_index :: "'n option list \<Rightarrow> nat \<Rightarrow> 'n option" where
  "js_index xs i = (if i < length xs then xs ! i else None)"

text \<open>
  The loop \<open>stats.forEach\<close>: its state is \<open>prevValues\<close>, \<open>prevEndTime\<close>, \<open>firstSum\<close>
  and the datasets of the current statistic. (\<open>prevDate === startDate\<close> compares a date
  object made in this very iteration with the one of the iteration before: they are never
  the same object, so that \<open>return\<close> is never taken.)
\<close>

record 'n stat_loop =
  prevValues :: "'n option list option"
  prevEndTime :: "int option"
  firstSum :: "'n option"
  loopDataSets :: "'n ChartDataset list"

definition pushData ::
  "ChartType \<Rightarrow> 'n stat_loop \<Rightarrow> int \<Rightarrow> int \<Rightarrow> 'n option list option \<Rightarrow> 'n stat_loop" where
  "pushData ct st start end_t dataValues =
     (case dataValues of
        None \<Rightarrow> st
      | Some dv \<Rightarrow>
          if start > end_t then st
          else st\<lparr>loopDataSets :=
                    map (\<lambda>(i, d).
                      d\<lparr>ds_data := ds_data d @
                          (case (prevEndTime st, prevValues st) of
                             (Some pe, Some pv) \<Rightarrow>
                               if ct = Line \<and> pe \<noteq> start
                               then [\<lparr>pt_x = pe, pt_y = js_index pv i\<rparr>,
                                     \<lparr>pt_x = pe, pt_y = None\<rparr>]
                               else []
                           | _ \<Rightarrow> [])
                          @ [\<lparr>pt_x = start, pt_y = js_index dv i\<rparr>]\<rparr>)
                      (enumerate 0 (loopDataSets st)),
                  prevValues := Some dv,
                  prevEndTime := Some end_t\<rparr>)"

text \<open>\<open>stat.sum || 0\<close>: the sum when it is a truthy number, else 0.\<close>

definition sum_or_0 :: "'n chart_env \<Rightarrow> 'n StatisticValue \<Rightarrow> 'n" where
  "sum_or_0 env stat =
     (case stat_sum stat of
        None \<Rightarrow> num_zero env
      | Some v \<Rightarrow> if num_truthy env v then v else num_zero env)"

text \<open>One round of \<open>statTypes.forEach\<close>, on \<open>firstSum\<close> and \<open>dataValues\<close>.\<close>

definition dataValueStep ::
  "'n chart_env \<Rightarrow> 'n StatisticValue \<Rightarrow> 'n option \<times> 'n option list \<Rightarrow> StatisticType \<Rightarrow>
   'n option \<times> 'n option list" where
  "dataValueStep env stat acc t =
     (case acc of (fs, dataValues) \<Rightarrow>
        if t = T_sum
        then (case fs of
                None \<Rightarrow> (stat_sum stat, dataValues @ [Some (num_zero env)])
              | Some f \<Rightarrow> (fs, dataValues @ [Some (num_minus env (sum_or_0 env stat) f)]))
        else (fs, dataValues @ [stat_field stat t]))"

definition statStep ::
  "'n chart_env \<Rightarrow> ChartType \<Rightarrow> StatisticType list \<Rightarrow> 'n stat_loop \<Rightarrow> 'n StatisticValue \<Rightarrow>
   'n stat_loop" where
  "statStep env ct types st stat =
     (case foldl (dataValueStep env stat) (firstSum st, []) types of
        (fs, dataValues) \<Rightarrow>
          pushData ct (st\<lparr>firstSum := fs\<rparr>) (stat_start stat) (stat_end stat)
            (Some dataValues))"

definition statLoop ::
  "'n chart_env \<Rightarrow> ChartType \<Rightarrow> StatisticType list \<Rightarrow> 'n ChartDataset list \<Rightarrow>
   'n StatisticValue list \<Rightarrow> 'n stat_loop" where
  "statLoop env ct types datasets stats =
     foldl (statStep env ct types)
       \<lparr>prevValues = None, prevEndTime = None, firstSum = None, loopDataSets = datasets\<rparr>
       stats"

text \<open>
  The body of \<open>statisticsData.forEach\<close> for one entry: name, colour, the datasets of the
  types the statistic has, and then the buckets.
\<close>

definition statisticName :: "'n chart_env \<Rightarrow> 'n StatisticsChart \<Rightarrow> StatisticsMetaData option \<Rightarrow> string \<Rightarrow> string" where
  "statisticName env c meta statistic_id =
     (case (case names c of None \<Rightarrow> None | Some n \<Rightarrow> n statistic_id) of
        None \<Rightarrow> getStatisticLabel env statistic_id meta
      | Some name \<Rightarrow> name)"

definition statisticTypeLoop ::
  "'n chart_env \<Rightarrow> 'n StatisticsChart \<Rightarrow> (string \<rightharpoonup> StatisticsMetaData) \<Rightarrow> nat \<Rightarrow>
   string \<Rightarrow> 'n StatisticValue list \<Rightarrow> 'n type_loop" where
  "statisticTypeLoop env c statisticsMetaData colorIndex statistic_id stats =
     typeLoop env c stats (statisticsMetaData statistic_id)
       (statisticName env c (statisticsMetaData statistic_id) statistic_id)
       (getGraphColorByIndex env colorIndex) statistic_id"

definition statisticDataSets ::
  "'n chart_env \<Rightarrow> 'n StatisticsChart \<Rightarrow> (string \<rightharpoonup> StatisticsMetaData) \<Rightarrow> nat \<Rightarrow>
   string \<Rightarrow> 'n StatisticValue list \<Rightarrow> 'n ChartDataset list" where
  "statisticDataSets env c statisticsMetaData colorIndex statistic_id stats =
     (let tl = statisticTypeLoop env c statisticsMetaData colorIndex statistic_id stats
      in loopDataSets (statLoop env (chartType c) (presentTypes tl) (statDataSets tl) stats))"

subsection \<open>_generateData\<close>

record 'n totals =
  colorIndex :: nat
  totalDataSets :: "'n ChartDataset list"
  totalDatasetExtras :: "ChartDatasetExtra list"
  totalIds :: "string list"

definition entryStep ::
  "'n chart_env \<Rightarrow> 'n StatisticsChart \<Rightarrow> (string \<rightharpoonup> StatisticsMetaData) \<Rightarrow> 'n totals \<Rightarrow>
   string \<times> 'n StatisticValue list \<Rightarrow> 'n totals" where
  "entryStep env c statisticsMetaData acc entry =
     (case entry of (statistic_id, stats) \<Rightarrow>
        (let tl = statisticTypeLoop env c statisticsMetaData (colorIndex acc) statistic_id stats
         in \<lparr>colorIndex = colorIndex acc + 1,
             totalDataSets = totalDataSets acc @
               statisticDataSets env c statisticsMetaData (colorIndex acc) statistic_id stats,
             totalDatasetExtras = totalDatasetExtras acc @ statDatasetExtras tl,
             totalIds = totalIds acc @ pushedIds tl\<rparr>))"

datatype js_error = TypeError

text \<open>
  \<open>statisticsData.map(([_, stats]) => new Date(stats[stats.length - 1].start).getTime())\<close>:
  for a statistic with no bucket \<open>stats[-1]\<close> is \<open>undefined\<close> and reading its
  \<open>start\<close> throws a TypeError.
\<close>

fun lastStarts :: "'n Statistics \<Rightarrow> js_error + int list" where
  "lastStarts [] = Inr []"
| "lastStarts ((statistic_id, stats) # rest) =
     (if stats = [] then Inl TypeError
      else (case lastStarts rest of
              Inl e \<Rightarrow> Inl e
            | Inr xs \<Rightarrow> Inr (stat_start (last stats) # xs)))"

text \<open>
  The local \<open>endTime\<close>: the property when it is set (the right-hand side of \<open>||\<close> is
  then not evaluated), else the greatest of the last start times; and then not later than
  now. It is called where the list of entries is not empty.
\<close>

definition computeEndTime :: "'n chart_env \<Rightarrow> 'n StatisticsChart \<Rightarrow> 'n Statistics \<Rightarrow> js_error + int" where
  "computeEndTime env c sd =
     (case (case endTime c of
              Some e \<Rightarrow> Inr e
            | None \<Rightarrow>
                (case lastStarts sd of
                   Inl err \<Rightarrow> Inl err
                 | Inr xs \<Rightarrow> Inr (fold max (tl xs) (hd xs)))) of
        Inl err \<Rightarrow> Inl err
      | Inr e \<Rightarrow> Inr (if e > now env then now env else e))"

text \<open>
  \<open>_generateData()\<close>: the component after the call, or the error thrown. An early
  \<open>return\<close> leaves the component as it is.
\<close>

definition generateData :: "'n chart_env \<Rightarrow> 'n StatisticsChart \<Rightarrow> js_error + 'n StatisticsChart" where
  "generateData env c =
     (case statisticsData c of
        None \<Rightarrow> Inr c
      | Some sd \<Rightarrow>
          (let statisticsMetaData =
                 (case metadata c of
                    Some m \<Rightarrow> m
                  | None \<Rightarrow> getStatisticsMetaData env (map fst sd))
           in if length sd = 0 then Inr c
              else (case computeEndTime env c sd of
                      Inl err \<Rightarrow> Inl err
                    | Inr endTime_local \<Rightarrow>
                        (let acc = foldl (entryStep env c statisticsMetaData)
                                     \<lparr>colorIndex = 0, totalDataSets = [],
                                      totalDatasetExtras = [], totalIds = []\<rparr> sd
                         in Inr (c\<lparr>chartData := totalDataSets acc,
                                   chartDatasetExtra := totalDatasetExtras acc,
                                   statisticIds := totalIds acc\<rparr>)))))"

subsection \<open>What the datasets hold, stated on the buckets\<close>

text \<open>
  The points of one dataset, from the rows \<open>(start, end, value)\<close> of the buckets that
  are plotted, given the end time and the value of the row before (if any): one display
  point per row, at the start time of the row; in a line chart, when the start time is
  not the end time of the row before, two points at that end time come first, one with
  the value of the row before and one with no value (the gap).
\<close>

fun gapFrom ::
  "ChartType \<Rightarrow> (int \<times> 'n option) option \<Rightarrow> (int \<times> int \<times> 'n option) list \<Rightarrow> 'n point list" where
  "gapFrom ct prev [] = []"
| "gapFrom ct prev ((s, e, v) # rows) =
     (case prev of
        None \<Rightarrow> []
      | Some (pe, pv) \<Rightarrow>
          if ct = Line \<and> pe \<noteq> s
          then [\<lparr>pt_x = pe, pt_y = pv\<rparr>, \<lparr>pt_x = pe, pt_y = None\<rparr>]
          else [])
     @ \<lparr>pt_x = s, pt_y = v\<rparr> # gapFrom ct (Some (e, v)) rows"

definition displayPoints :: "(int \<times> int \<times> 'n option) list \<Rightarrow> 'n point list" where
  "displayPoints rows = map (\<lambda>(s, e, v). \<lparr>pt_x = s, pt_y = v\<rparr>) rows"

definition keptRow :: "int \<times> int \<times> 'n option \<Rightarrow> bool" where
  "keptRow r = (case r of (s, e, v) \<Rightarrow> s \<le> e)"

definition keptBucket :: "'n StatisticValue \<Rightarrow> bool" where
  "keptBucket b = (stat_start b \<le> stat_end b)"

text \<open>
  The values \<open>dataValues\<close> holds for a bucket, one per type, given \<open>firstSum\<close> as it is
  when the bucket is reached, and \<open>firstSum\<close> after the bucket; and the rows of the
  dataset with index \<open>i\<close>.
\<close>

definition rowValues ::
  "'n chart_env \<Rightarrow> StatisticType list \<Rightarrow> 'n option \<Rightarrow> 'n StatisticValue \<Rightarrow> 'n option list" where
  "rowValues env types fs stat = snd (foldl (dataValueStep env stat) (fs, []) types)"

definition nextFirstSum ::
  "'n chart_env \<Rightarrow> StatisticType list \<Rightarrow> 'n option \<Rightarrow> 'n StatisticValue \<Rightarrow> 'n option" where
  "nextFirstSum env types fs stat = fst (foldl (dataValueStep env stat) (fs, []) types)"

fun colRows ::
  "'n chart_env \<Rightarrow> StatisticType list \<Rightarrow> nat \<Rightarrow> 'n option \<Rightarrow> 'n StatisticValue list \<Rightarrow>
   (int \<times> int \<times> 'n option) list" where
  "colRows env types i fs [] = []"
| "colRows env types i fs (b # bs) =
     (stat_start b, stat_end b, js_index (rowValues env types fs b) i)
       # colRows env types i (nextFirstSum env types fs b) bs"

text \<open>The types a statistic gets a dataset for, in the order of its datasets.\<close>

definition typesOf :: "'n chart_env \<Rightarrow> 'n StatisticsChart \<Rightarrow> 'n StatisticValue list \<Rightarrow> StatisticType list" where
  "typesOf env c stats = filter (statisticsHaveType env stats) (sortedTypes env c stats)"

text \<open>The metadata \<open>_generateData\<close> works with.\<close>

definition resolvedMetaData ::
  "'n chart_env \<Rightarrow> 'n StatisticsChart \<Rightarrow> 'n Statistics \<Rightarrow> (string \<rightharpoonup> StatisticsMetaData)" where
  "resolvedMetaData env c sd =
     (case metadata c of Some m \<Rightarrow> m | None \<Rightarrow> getStatisticsMetaData env (map fst sd))"

text \<open>
  An environment for the examples: a statistic has a type when one of its buckets has a
  value of the type, \<open>localize\<close> answers the key, the label of a statistic is its id,
  and every colour is the same. The numbers of the examples are integers, on which the
  subtraction of doubles is the subtraction of integers.
\<close>

definition example_env :: "int chart_env" where
  "example_env =
     \<lparr>chart_localize = (\<lambda>key. key),
      isComponentLoaded = (\<lambda>name. name = ''history''),
      getStatisticLabel = (\<lambda>statistic_id meta. statistic_id),
      getGraphColorByIndex = (\<lambda>i. ''#4269d0''),
      statisticsHaveType = (\<lambda>stats t. list_ex (\<lambda>stat. stat_field stat t \<noteq> None) stats),
      getStatisticsMetaData = (\<lambda>ids. Map.empty),
      now = 1700000000000,
      num_zero = 0,
      num_minus = (\<lambda>a b. a - b),
      num_truthy = (\<lambda>a. a \<noteq> 0)\<rparr>"

definition example_chart :: "'n StatisticsChart" where
  "example_chart =
     \<lparr>statisticsData = None, metadata = None, names = None, endTime = None,
      statTypes = [T_sum, T_min, T_mean, T_max], chartType = Line, hideLegend = False,
      isLoadingData = False, hiddenStats = {}, chartData = [], chartDatasetExtra = [],
      statisticIds = []\<rparr>"

definition bucket :: "int \<Rightarrow> int \<Rightarrow> 'n option \<Rightarrow> 'n option \<Rightarrow> 'n StatisticValue" where
  "bucket s e m sm =
     \<lparr>stat_start = s, stat_end = e, stat_mean = m, stat_min = None, stat_max = None,
      stat_sum = sm, stat_state = None, stat_change = None\<rparr>"

text \<open>The row before, for dataset \<open>i\<close>, as the loop state holds it.\<close>

definition prevRow :: "'n stat_loop \<Rightarrow> nat \<Rightarrow> (int \<times> 'n option) option" where
  "prevRow st i =
     (case (prevEndTime st, prevValues st) of
        (Some pe, Some pv) \<Rightarrow> Some (pe, js_index pv i)
      | _ \<Rightarrow> None)"

text \<open>The datasets of all statistics, the colour index counting from \<open>k\<close>.\<close>

definition allDataSets ::
  "'n chart_env \<Rightarrow> 'n StatisticsChart \<Rightarrow> (string \<rightharpoonup> StatisticsMetaData) \<Rightarrow> nat \<Rightarrow> 'n Statistics \<Rightarrow>
   'n ChartDataset list" where
  "allDataSets env c md k sd =
     concat (map (\<lambda>(j, (sid, stats)). statisticDataSets env c md j sid stats) (enumerate k sd))"


section \<open>Properties of the date input widget\<close>

text \<open>
  Claim C6. The value of the date input changes only to the value the date-picker dialog
  hands to \<open>onChange\<close>, or to \<open>undefined\<close> on a Backspace or Delete key press while
  \<open>canClear\<close> is set; a click and every other key press leave it as it is (another
  key press leaves the whole component as it is). The events \<open>change\<close> and
  \<open>value-changed\<close> (carrying the new value) are dispatched exactly when the new value
  differs from the current one.
\<close>

theorem date_input_value_changes:
  "di_value (date_input_step s a) =
     (case a of
        DialogOnChange v \<Rightarrow> v
      | KeyPress key \<Rightarrow>
          if di_canClear s \<and> (key = ''Backspace'' \<or> key = ''Delete'') then None
          else di_value s
      | Click \<Rightarrow> di_value s)
   \<and> change_events (date_input_step s a) =
       change_events s @
         (if di_value (date_input_step s a) \<noteq> di_value s
          then [EvChange, EvValueChanged (di_value (date_input_step s a))]
          else [])
   \<and> (case a of
        KeyPress key \<Rightarrow>
          (di_canClear s \<and> (key = ''Backspace'' \<or> key = ''Delete''))
          \<or> date_input_step s a = s
      | DialogOnChange v \<Rightarrow> True
      | Click \<Rightarrow> True)"
  by (cases a)
     (auto simp add: keyDown_def valueChanged_def openDialog_def change_events_def)

theorem date_input_value_changes_witness:
  "di_value (date_input_step
      \<lparr>di_value = Some ''2024-05-01'', di_min = None, di_max = None, di_disabled = False,
        di_canClear = True, di_fired = []\<rparr> (KeyPress ''Delete'')) = None
   \<and> change_events (date_input_step
      \<lparr>di_value = Some ''2024-05-01'', di_min = None, di_max = None, di_disabled = False,
        di_canClear = True, di_fired = []\<rparr> (KeyPress ''Delete''))
     = [EvChange, EvValueChanged None]"
  using date_input_value_changes [of
      "\<lparr>di_value = Some ''2024-05-01'', di_min = None, di_max = None, di_disabled = False,
        di_canClear = True, di_fired = []\<rparr>" "KeyPress ''Delete''"]
  by (simp add: change_events_def)


section \<open>Properties of the cloud sign-in step\<close>

lemma login_calls_append: "login_calls (xs @ ys) = login_calls xs @ login_calls ys"
  by (induction xs rule: login_calls.induct) auto

lemma login_calls_map: "login_calls (map (\<lambda>(u, p). CloudLoginCall u p) cs) = cs"
  by (induction cs) auto

text \<open>What the end of \<open>doLogin\<close> makes of a rejection that is not retried.\<close>

lemma doLogin_no_retry:
  assumes "cloudLogin env (login_calls (effects s)) u (password env) = LoginRejected err"
    and "errCode err \<noteq> Some ''usernotfound'' \<or> u = toLowerCase env u"
  shows "doLogin env s u =
     Some (if errCode err = Some ''PasswordChangeRequired''
      then s\<lparr>effects := effects s @
             [CloudLoginCall u (password env),
              ShowAlertDialog
                (localize env ''ui.panel.config.cloud.login.alert_password_change_required''),
              Navigate ''/config/cloud/forgot-password'',
              FireEvent ''closed'']\<rparr>
      else s\<lparr>requestInProgress := False,
             error := Some (rejection_text env err),
             effects := effects s @ [CloudLoginCall u (password env), Focus EmailField]\<rparr>)"
  using assms
  by (subst doLogin.simps) (auto simp add: Let_def rejection_text_def)

lemma doLogin_ok:
  assumes "cloudLogin env (login_calls (effects s)) u (password env) = LoginOk"
  shows "doLogin env s u = Some (s\<lparr>effects := effects s @ [CloudLoginCall u (password env)]\<rparr>)"
  using assms by (subst doLogin.simps) (simp add: Let_def)

lemma doLogin_retry:
  assumes "cloudLogin env (login_calls (effects s)) u (password env) = LoginRejected err"
    and "errCode err = Some ''usernotfound''" and "u \<noteq> toLowerCase env u"
  shows "doLogin env s u =
     doLogin env (s\<lparr>effects := effects s @ [CloudLoginCall u (password env)]\<rparr>)
       (toLowerCase env u)"
  using assms
  by (subst doLogin.simps) (simp add: Let_def)

text \<open>A call that is not retried returns, having called the backend once.\<close>

lemma doLogin_once:
  assumes "\<not> (is_usernotfound (cloudLogin env (login_calls (effects s)) u (password env))
             \<and> u \<noteq> toLowerCase env u)"
  shows "\<exists>s'. doLogin env s u = Some s'
           \<and> login_calls (effects s') = login_calls (effects s) @ [(u, password env)]"
proof (cases "cloudLogin env (login_calls (effects s)) u (password env)")
  case LoginOk
  then show ?thesis by (simp add: doLogin_ok login_calls_append)
next
  case (LoginRejected err)
  with assms have "errCode err \<noteq> Some ''usernotfound'' \<or> u = toLowerCase env u"
    by (auto simp add: is_usernotfound_def)
  from doLogin_no_retry [OF LoginRejected this]
  show ?thesis by (simp add: login_calls_append)
qed

lemma handleLogin_valid:
  assumes "emailValid env" and "passwordValid env"
  shows "handleLogin env s =
     doLogin env
       (s\<lparr>requestInProgress := True,
          effects := effects s @ [ReportValidity EmailField, ReportValidity PasswordField]\<rparr>)
       (email env)"
  using assms by (simp add: handleLogin_def)

text \<open>
  Claim C1, as the code has it. The login handler does retry, once: a call rejected with
  the code \<open>usernotfound\<close> for an e-mail that lower-casing changes is repeated with the
  e-mail lower-cased. So one call of \<open>_handleLogin\<close> returns, having made no call of the
  backend when a field fails validation, and otherwise one call with the e-mail as
  entered, followed by a second call exactly in the case above; it never makes more than
  two calls, whatever the backend answers. This rests on one property of lower-casing
  only: lower-casing the lower-cased e-mail changes nothing.
\<close>

theorem login_at_most_two_calls:
  assumes idem: "toLowerCase env (toLowerCase env (email env)) = toLowerCase env (email env)"
  shows "\<exists>s'. handleLogin env s = Some s'
     \<and> login_calls (effects s') =
         login_calls (effects s) @
           (if emailValid env \<and> passwordValid env
            then (email env, password env) #
              (if is_usernotfound
                    (cloudLogin env (login_calls (effects s)) (email env) (password env))
                  \<and> email env \<noteq> toLowerCase env (email env)
               then [(toLowerCase env (email env), password env)] else [])
            else [])
     \<and> length (login_calls (effects s')) \<le> length (login_calls (effects s)) + 2"
proof (cases "emailValid env \<and> passwordValid env")
  case False
  then show ?thesis
    by (auto simp add: handleLogin_def login_calls_append)
next
  case True
  let ?s0 = "s\<lparr>requestInProgress := True,
                effects := effects s @ [ReportValidity EmailField, ReportValidity PasswordField]\<rparr>"
  let ?r1 = "cloudLogin env (login_calls (effects s)) (email env) (password env)"
  have calls0: "login_calls (effects ?s0) = login_calls (effects s)"
    by (simp add: login_calls_append)
  have h: "handleLogin env s = doLogin env ?s0 (email env)"
    using True by (simp add: handleLogin_valid)
  show ?thesis
  proof (cases "is_usernotfound ?r1 \<and> email env \<noteq> toLowerCase env (email env)")
    case False
    with doLogin_once [of env ?s0 "email env"] calls0 True h
    show ?thesis by auto
  next
    case retry: True
    then obtain e1 where r1: "?r1 = LoginRejected e1" and c1: "errCode e1 = Some ''usernotfound''"
      by (auto simp add: is_usernotfound_def split: login_result.splits)
    let ?s1 = "?s0\<lparr>effects := effects ?s0 @ [CloudLoginCall (email env) (password env)]\<rparr>"
    have step1: "doLogin env ?s0 (email env) = doLogin env ?s1 (toLowerCase env (email env))"
      using doLogin_retry [of env ?s0 "email env" e1] r1 c1 retry calls0 by simp
    have "\<exists>s'. doLogin env ?s1 (toLowerCase env (email env)) = Some s'
           \<and> login_calls (effects s') =
               login_calls (effects ?s1) @ [(toLowerCase env (email env), password env)]"
      by (rule doLogin_once) (simp add: idem)
    then show ?thesis
      using True retry h step1 by (auto simp add: login_calls_append)
  qed
qed

text \<open>
  The theorem at an e-mail with a capital letter: the backend rejects the first call with
  \<open>usernotfound\<close> and accepts the second.
\<close>

theorem login_at_most_two_calls_witness:
  "map_option (login_calls \<circ> effects) (handleLogin
      \<lparr>email = ''Ann@x.io'', password = ''secret12'', emailValid = True, passwordValid = True,
        localize = (\<lambda>k. k), toLowerCase = ascii_toLowerCase,
        cloudLogin = (\<lambda>calls u p.
          if calls = [] then LoginRejected (Some \<lparr>body_code = Some ''usernotfound'', body_message = None\<rparr>)
          else LoginOk)\<rparr>
      \<lparr>requestInProgress = False, error = None, effects = []\<rparr>)
    = Some [(''Ann@x.io'', ''secret12''), (''ann@x.io'', ''secret12'')]"
proof -
  let ?env = "\<lparr>email = ''Ann@x.io'', password = ''secret12'', emailValid = True, passwordValid = True,
        localize = (\<lambda>k. k), toLowerCase = ascii_toLowerCase,
        cloudLogin = (\<lambda>calls u p.
          if calls = [] then LoginRejected (Some \<lparr>body_code = Some ''usernotfound'', body_message = None\<rparr>)
          else LoginOk)\<rparr>"
  have lower: "ascii_toLowerCase ''Ann@x.io'' = ''ann@x.io''"
    by code_simp
  have lower2: "ascii_toLowerCase ''ann@x.io'' = ''ann@x.io''"
    by code_simp
  have idem: "toLowerCase ?env (toLowerCase ?env (email ?env)) = toLowerCase ?env (email ?env)"
    by (simp add: lower lower2)
  from login_at_most_two_calls [OF idem, of "\<lparr>requestInProgress = False, error = None, effects = []\<rparr>"]
  show ?thesis
    by (auto simp add: lower is_usernotfound_def errCode_def)
qed

text \<open>
  The claim as the specification states it (at most one call per login) fails: the
  backend rejects every call with \<open>usernotfound\<close>, the e-mail has a capital letter, and
  the handler calls the backend twice.
\<close>

theorem login_retry_counterexample:
  "map_option (length \<circ> login_calls \<circ> effects) (handleLogin
      \<lparr>email = ''Ann@x.io'', password = ''secret12'', emailValid = True, passwordValid = True,
        localize = (\<lambda>k. k), toLowerCase = ascii_toLowerCase,
        cloudLogin = (\<lambda>calls u p.
          LoginRejected (Some \<lparr>body_code = Some ''usernotfound'', body_message = None\<rparr>))\<rparr>
      \<lparr>requestInProgress = False, error = None, effects = []\<rparr>) = Some 2"
proof -
  have lower: "ascii_toLowerCase ''Ann@x.io'' = ''ann@x.io''"
    by code_simp
  have lower2: "ascii_toLowerCase ''ann@x.io'' = ''ann@x.io''"
    by code_simp
  show ?thesis
    by (simp add: handleLogin_def doLogin.simps Let_def errCode_def lower lower2)
qed

text \<open>
  Claim C3, as the code has it. When both fields are valid and the call that ends the
  handler is rejected, the handler returns, and: for a code other than
  \<open>PasswordChangeRequired\<close> the component's \<open>_error\<close> becomes the localized
  e-mail-confirmation string (code \<open>UserNotConfirmed\<close>) or else the error body's
  non-empty message or else the literal \<open>Unknown error\<close>, the request is no longer in
  progress, \<open>render\<close> shows that string as the inline alert (when it is not empty), and
  the failure is reported through no other channel: besides reporting validity and calling
  the backend, the handler only focuses the e-mail field. For the code
  \<open>PasswordChangeRequired\<close> the inline error and alert stay as they were and the failure
  is reported through an alert dialog, a navigation to the forgot-password page and a
  \<open>closed\<close> event, and through nothing else. (A \<open>usernotfound\<close> rejection of an
  e-mail that lower-casing changes is not reported: the call is repeated, see C1.)
\<close>

theorem login_rejection_surfaced:
  assumes valid: "emailValid env" "passwordValid env"
    and idem: "toLowerCase env (toLowerCase env (email env)) = toLowerCase env (email env)"
    and rej: "last_login_result env s = LoginRejected err"
  shows "\<exists>s'. handleLogin env s = Some s' \<and>
        (if errCode err = Some ''PasswordChangeRequired''
         then error s' = error s
            \<and> alert (render_signin s') = alert (render_signin s)
            \<and> requestInProgress s'
            \<and> effects s' = effects s
                 @ [ReportValidity EmailField, ReportValidity PasswordField]
                 @ map (\<lambda>(u, p). CloudLoginCall u p) (login_attempts env s)
                 @ [ShowAlertDialog
                      (localize env ''ui.panel.config.cloud.login.alert_password_change_required''),
                    Navigate ''/config/cloud/forgot-password'',
                    FireEvent ''closed'']
         else error s' = Some (rejection_text env err)
            \<and> alert (render_signin s') =
                (if rejection_text env err = [] then None else Some (rejection_text env err))
            \<and> \<not> requestInProgress s'
            \<and> effects s' = effects s
                 @ [ReportValidity EmailField, ReportValidity PasswordField]
                 @ map (\<lambda>(u, p). CloudLoginCall u p) (login_attempts env s)
                 @ [Focus EmailField])"
proof -
  let ?s0 = "s\<lparr>requestInProgress := True,
                effects := effects s @ [ReportValidity EmailField, ReportValidity PasswordField]\<rparr>"
  let ?r1 = "cloudLogin env (login_calls (effects s)) (email env) (password env)"
  have calls0: "login_calls (effects ?s0) = login_calls (effects s)"
    by (simp add: login_calls_append)
  have h: "handleLogin env s = doLogin env ?s0 (email env)"
    using valid by (simp add: handleLogin_valid)
  show ?thesis
  proof (cases "retried env s")
    case True
    then obtain e1 where r1: "?r1 = LoginRejected e1" and c1: "errCode e1 = Some ''usernotfound''"
      and neq: "email env \<noteq> toLowerCase env (email env)"
      by (auto simp add: retried_def is_usernotfound_def split: login_result.splits)
    let ?s1 = "?s0\<lparr>effects := effects ?s0 @ [CloudLoginCall (email env) (password env)]\<rparr>"
    have step1: "doLogin env ?s0 (email env) = doLogin env ?s1 (toLowerCase env (email env))"
      using doLogin_retry [of env ?s0 "email env" e1] r1 c1 neq calls0 by simp
    have r2: "cloudLogin env (login_calls (effects ?s1)) (toLowerCase env (email env)) (password env)
                = LoginRejected err"
      using rej True by (simp add: last_login_result_def login_calls_append)
    have step2: "doLogin env ?s1 (toLowerCase env (email env)) =
       Some (if errCode err = Some ''PasswordChangeRequired''
        then ?s1\<lparr>effects := effects ?s1 @
             [CloudLoginCall (toLowerCase env (email env)) (password env),
              ShowAlertDialog
                (localize env ''ui.panel.config.cloud.login.alert_password_change_required''),
              Navigate ''/config/cloud/forgot-password'',
              FireEvent ''closed'']\<rparr>
        else ?s1\<lparr>requestInProgress := False,
             error := Some (rejection_text env err),
             effects := effects ?s1 @
               [CloudLoginCall (toLowerCase env (email env)) (password env), Focus EmailField]\<rparr>)"
      by (rule doLogin_no_retry [OF r2]) (simp add: idem)
    show ?thesis
      unfolding h step1 step2 using True
      by (simp add: render_signin_def login_attempts_def)
  next
    case False
    then have r1: "?r1 = LoginRejected err"
      using rej by (simp add: last_login_result_def)
    have nr: "errCode err \<noteq> Some ''usernotfound'' \<or> email env = toLowerCase env (email env)"
      using False r1 by (auto simp add: retried_def is_usernotfound_def)
    have r1': "cloudLogin env (login_calls (effects ?s0)) (email env) (password env)
                 = LoginRejected err"
      using r1 calls0 by simp
    show ?thesis
      unfolding h doLogin_no_retry [OF r1' nr] using False
      by (simp add: render_signin_def login_attempts_def)
  qed
qed

text \<open>
  The theorem at a rejection with another code and a message.
\<close>

theorem login_rejection_surfaced_witness:
  "map_option (\<lambda>s'. (alert (render_signin s'), effects s')) (handleLogin
      \<lparr>email = ''ann@x.io'', password = ''secret12'', emailValid = True, passwordValid = True,
        localize = (\<lambda>k. k), toLowerCase = ascii_toLowerCase,
        cloudLogin = (\<lambda>calls u p.
          LoginRejected (Some \<lparr>body_code = Some ''invalid_auth'',
                               body_message = Some ''Wrong password''\<rparr>))\<rparr>
      \<lparr>requestInProgress = False, error = None, effects = []\<rparr>)
   = Some (Some ''Wrong password'',
       [ReportValidity EmailField, ReportValidity PasswordField,
        CloudLoginCall ''ann@x.io'' ''secret12'', Focus EmailField])"
proof -
  let ?env = "\<lparr>email = ''ann@x.io'', password = ''secret12'', emailValid = True, passwordValid = True,
        localize = (\<lambda>k. k), toLowerCase = ascii_toLowerCase,
        cloudLogin = (\<lambda>calls u p.
          LoginRejected (Some \<lparr>body_code = Some ''invalid_auth'',
                               body_message = Some ''Wrong password''\<rparr>))\<rparr>"
  let ?s = "\<lparr>requestInProgress = False, error = None, effects = []\<rparr>"
  let ?err = "Some \<lparr>body_code = Some ''invalid_auth'', body_message = Some ''Wrong password''\<rparr>"
  have lower: "ascii_toLowerCase ''ann@x.io'' = ''ann@x.io''"
    by code_simp
  have valid: "emailValid ?env" "passwordValid ?env"
    by simp_all
  have idem: "toLowerCase ?env (toLowerCase ?env (email ?env)) = toLowerCase ?env (email ?env)"
    by (simp add: lower)
  have nretry: "\<not> retried ?env ?s"
    by (simp add: retried_def lower)
  have rej: "last_login_result ?env ?s = LoginRejected ?err"
    by (simp add: last_login_result_def retried_def lower)
  from login_rejection_surfaced [OF valid idem rej]
  show ?thesis
    using nretry
    by (auto simp add: errCode_def errMessage_def rejection_text_def login_attempts_def)
qed

text \<open>
  The claim as the specification states it (every rejection ends in an inline alert, and
  no other channel reports a failure) fails: the backend rejects the call with the code
  \<open>PasswordChangeRequired\<close>, no inline alert is rendered, and an alert dialog is opened.
\<close>

theorem login_password_change_counterexample:
  "cloudLogin
      \<lparr>email = ''ann@x.io'', password = ''secret12'', emailValid = True, passwordValid = True,
        localize = (\<lambda>k. k), toLowerCase = ascii_toLowerCase,
        cloudLogin = (\<lambda>calls u p.
          LoginRejected (Some \<lparr>body_code = Some ''PasswordChangeRequired'',
                               body_message = Some ''Change it''\<rparr>))\<rparr>
      [] ''ann@x.io'' ''secret12''
     = LoginRejected (Some \<lparr>body_code = Some ''PasswordChangeRequired'',
                            body_message = Some ''Change it''\<rparr>)
   \<and> map_option (\<lambda>s'. (alert (render_signin s'), effects s')) (handleLogin
      \<lparr>email = ''ann@x.io'', password = ''secret12'', emailValid = True, passwordValid = True,
        localize = (\<lambda>k. k), toLowerCase = ascii_toLowerCase,
        cloudLogin = (\<lambda>calls u p.
          LoginRejected (Some \<lparr>body_code = Some ''PasswordChangeRequired'',
                               body_message = Some ''Change it''\<rparr>))\<rparr>
      \<lparr>requestInProgress = False, error = None, effects = []\<rparr>)
     = Some (None,
         [ReportValidity EmailField, ReportValidity PasswordField,
          CloudLoginCall ''ann@x.io'' ''secret12'',
          ShowAlertDialog ''ui.panel.config.cloud.login.alert_password_change_required'',
          Navigate ''/config/cloud/forgot-password'', FireEvent ''closed''])"
  by (simp add: handleLogin_def doLogin.simps Let_def errCode_def render_signin_def)


section \<open>Properties of the chart base component\<close>

lemma chart_step_locked:
  assumes "paddingUpdateLock s"
  shows "paddingUpdateLock (chart_step s a)
       \<and> paddingYAxisInternal (chart_step s a) = paddingYAxisInternal s"
  using assms
  by (cases a)
     (auto simp add: performUpdate_def shouldUpdate_def willUpdate_def split: option.splits)

lemma chart_steps_locked:
  assumes "paddingUpdateLock s"
  shows "paddingUpdateLock (foldl chart_step s as)
       \<and> paddingYAxisInternal (foldl chart_step s as) = paddingYAxisInternal s"
  using assms
proof (induction as arbitrary: s)
  case Nil
  then show ?case by simp
next
  case (Cons a as)
  from chart_step_locked [OF Cons.prems, of a] Cons.IH [of "chart_step s a"]
  show ?case by simp
qed

text \<open>
  The lock engages: 300 updates that change only the padding, with no two quiet seconds
  between them, leave the component unlocked with a count of 300, and the next one locks.
\<close>

lemma padding_updates_count:
  assumes "\<not> paddingUpdateLock s" and "paddingUpdateCount s + n \<le> 300"
  shows "\<not> paddingUpdateLock (foldl chart_step s (replicate n (Update p [''paddingYAxis''])))
       \<and> paddingUpdateCount (foldl chart_step s (replicate n (Update p [''paddingYAxis'']))) =
           paddingUpdateCount s + n"
  using assms
proof (induction n arbitrary: s)
  case 0
  then show ?case by simp
next
  case (Suc n)
  let ?s1 = "chart_step s (Update p [''paddingYAxis''])"
  have s1: "\<not> paddingUpdateLock ?s1 \<and> paddingUpdateCount ?s1 = paddingUpdateCount s + 1"
    using Suc.prems
    by (simp add: performUpdate_def shouldUpdate_def willUpdate_def only_padding_changed_def
          debouncedClearUpdates_def Let_def)
  with Suc.prems Suc.IH [of ?s1] show ?case by simp
qed

lemma padding_lock_engages:
  assumes "\<not> paddingUpdateLock s" and "paddingUpdateCount s = 0"
  shows "paddingUpdateLock (foldl chart_step s (replicate 301 (Update p [''paddingYAxis''])))"
proof -
  let ?u = "Update p [''paddingYAxis'']"
  let ?s300 = "foldl chart_step s (replicate 300 ?u)"
  have a: "\<not> paddingUpdateLock ?s300 \<and> paddingUpdateCount ?s300 = 300"
    using padding_updates_count [of s 300 p] assms by simp
  have r: "replicate 301 ?u = replicate 300 ?u @ [?u]"
  proof -
    have "(301::nat) = 300 + 1" by simp
    then have "replicate 301 ?u = replicate 300 ?u @ replicate 1 ?u"
      by (simp only: replicate_add)
    then show ?thesis by simp
  qed
  show ?thesis
    unfolding r using a
    by (simp add: performUpdate_def shouldUpdate_def willUpdate_def only_padding_changed_def
          Let_def)
qed

text \<open>
  Claim C10. Once \<open>_paddingUpdateLock\<close> is set, it stays set whatever happens to the
  component afterwards (updates of any properties, time passing), the internal padding
  keeps the value it had, and an update whose only changed property is \<open>paddingYAxis\<close>
  is suppressed: it leaves the component as it was but for the new value of the public
  property, so nothing is rendered and the internal padding does not follow.
\<close>

theorem padding_lock_permanent:
  assumes "paddingUpdateLock s"
  shows "paddingUpdateLock (foldl chart_step s as)
       \<and> paddingYAxisInternal (foldl chart_step s as) = paddingYAxisInternal s
       \<and> chart_step (foldl chart_step s as) (Update p [''paddingYAxis'']) =
           (foldl chart_step s as)\<lparr>paddingYAxis := p\<rparr>
       \<and> renders (chart_step (foldl chart_step s as) (Update p [''paddingYAxis''])) =
           renders (foldl chart_step s as)"
proof -
  have l: "paddingUpdateLock (foldl chart_step s as)"
    using chart_steps_locked [OF assms] by simp
  have "chart_step (foldl chart_step s as) (Update p [''paddingYAxis'']) =
          (foldl chart_step s as)\<lparr>paddingYAxis := p\<rparr>"
    using l by (simp add: performUpdate_def shouldUpdate_def only_padding_changed_def)
  then show ?thesis
    using chart_steps_locked [OF assms, of as] by simp
qed

theorem padding_lock_permanent_witness:
  "paddingUpdateLock
     (foldl chart_step
        \<lparr>paddingYAxis = 0, paddingUpdateCount = 0, paddingUpdateLock = False,
          paddingYAxisInternal = 0, clearTimer = None, renders = 0\<rparr>
        (replicate 301 (Update 12 [''paddingYAxis''])))
   \<and> paddingUpdateLock
     (foldl chart_step
        (foldl chart_step
           \<lparr>paddingYAxis = 0, paddingUpdateCount = 0, paddingUpdateLock = False,
             paddingYAxisInternal = 0, clearTimer = None, renders = 0\<rparr>
           (replicate 301 (Update 12 [''paddingYAxis''])))
        [Elapse 5000, Update 0 [''data'', ''options'']])
   \<and> renders
       (chart_step
          (foldl chart_step
             (foldl chart_step
                \<lparr>paddingYAxis = 0, paddingUpdateCount = 0, paddingUpdateLock = False,
                  paddingYAxisInternal = 0, clearTimer = None, renders = 0\<rparr>
                (replicate 301 (Update 12 [''paddingYAxis''])))
             [Elapse 5000, Update 0 [''data'', ''options'']])
          (Update 40 [''paddingYAxis'']))
     = renders
         (foldl chart_step
            (foldl chart_step
               \<lparr>paddingYAxis = 0, paddingUpdateCount = 0, paddingUpdateLock = False,
                 paddingYAxisInternal = 0, clearTimer = None, renders = 0\<rparr>
               (replicate 301 (Update 12 [''paddingYAxis''])))
            [Elapse 5000, Update 0 [''data'', ''options'']])"
proof -
  let ?init = "\<lparr>paddingYAxis = 0, paddingUpdateCount = 0, paddingUpdateLock = False,
                 paddingYAxisInternal = 0, clearTimer = None, renders = 0\<rparr>"
  have locked: "paddingUpdateLock
      (foldl chart_step ?init (replicate 301 (Update 12 [''paddingYAxis''])))"
    by (rule padding_lock_engages) simp_all
  from padding_lock_permanent [OF locked, of "[Elapse 5000, Update 0 [''data'', ''options'']]" 40]
  show ?thesis using locked by simp
qed


section \<open>Properties of the statistics chart\<close>

subsection \<open>The loops, as functions of the buckets\<close>

lemma dataValueStep_acc:
  "dataValueStep env stat (fs, dv) t =
     (fst (dataValueStep env stat (fs, []) t), dv @ snd (dataValueStep env stat (fs, []) t))"
  by (simp add: dataValueStep_def split: option.splits)

lemma dataValues_acc:
  "foldl (dataValueStep env stat) (fs, dv) ts =
     (fst (foldl (dataValueStep env stat) (fs, []) ts),
      dv @ snd (foldl (dataValueStep env stat) (fs, []) ts))"
proof (induction ts arbitrary: fs dv)
  case Nil
  then show ?case by simp
next
  case (Cons t ts)
  obtain fs' v where s: "dataValueStep env stat (fs, []) t = (fs', v)"
    by (cases "dataValueStep env stat (fs, []) t")
  have s': "dataValueStep env stat (fs, dv) t = (fs', dv @ v)"
    using dataValueStep_acc [of env stat fs dv t] s by simp
  show ?case
    using Cons.IH [of fs' "dv @ v"] Cons.IH [of fs' v] by (simp add: s s')
qed

lemma dataValueStep_single:
  "\<exists>fs' v. dataValueStep env stat (fs, []) t = (fs', [v])"
  by (cases fs) (simp_all add: dataValueStep_def)

lemma rowValues_Nil: "rowValues env [] fs stat = []"
  by (simp add: rowValues_def)


lemma rowValues_Cons:
  "rowValues env (t # ts) fs stat =
     (if t = T_sum
      then (case fs of
              None \<Rightarrow> Some (num_zero env) # rowValues env ts (stat_sum stat) stat
            | Some f \<Rightarrow> Some (num_minus env (sum_or_0 env stat) f) # rowValues env ts fs stat)
      else stat_field stat t # rowValues env ts fs stat)"
proof -
  obtain fs' v where s: "dataValueStep env stat (fs, []) t = (fs', [v])"
    using dataValueStep_single [of env stat fs t] by blast
  have "rowValues env (t # ts) fs stat = v # rowValues env ts fs' stat"
    using dataValues_acc [of env stat fs' "[v]" ts] by (simp add: rowValues_def s)
  then show ?thesis
    using s by (auto simp add: dataValueStep_def split: option.splits if_splits)
qed


lemma rowValues_length: "length (rowValues env types fs stat) = length types"
  by (induction types arbitrary: fs) (simp_all add: rowValues_Nil rowValues_Cons split: option.splits)

lemma statStep_eq:
  "statStep env ct types st stat =
     pushData ct (st\<lparr>firstSum := nextFirstSum env types (firstSum st) stat\<rparr>)
       (stat_start stat) (stat_end stat) (Some (rowValues env types (firstSum st) stat))"
  by (simp add: statStep_def rowValues_def nextFirstSum_def split: prod.splits)

lemma statStep_dropped:
  assumes "stat_start b > stat_end b"
  shows "statStep env ct types st b = st\<lparr>firstSum := nextFirstSum env types (firstSum st) b\<rparr>"
  using assms by (simp add: statStep_eq pushData_def)

lemma statStep_kept:
  assumes "stat_start b \<le> stat_end b" and "i < length (loopDataSets st)"
  shows "length (loopDataSets (statStep env ct types st b)) = length (loopDataSets st)"
    and "firstSum (statStep env ct types st b) = nextFirstSum env types (firstSum st) b"
    and "prevRow (statStep env ct types st b) i =
           Some (stat_end b, js_index (rowValues env types (firstSum st) b) i)"
    and "loopDataSets (statStep env ct types st b) ! i =
           (loopDataSets st ! i)\<lparr>ds_data := ds_data (loopDataSets st ! i) @
              gapFrom ct (prevRow st i)
                [(stat_start b, stat_end b, js_index (rowValues env types (firstSum st) b) i)]\<rparr>"
  using assms
  by (auto simp add: statStep_eq pushData_def prevRow_def nth_enumerate_eq
        split: option.splits)

lemma statLoop_fold:
  assumes "i < length (loopDataSets st)"
  shows "length (loopDataSets (foldl (statStep env ct types) st stats)) = length (loopDataSets st)
       \<and> loopDataSets (foldl (statStep env ct types) st stats) ! i =
           (loopDataSets st ! i)\<lparr>ds_data := ds_data (loopDataSets st ! i) @
              gapFrom ct (prevRow st i)
                (filter keptRow (colRows env types i (firstSum st) stats))\<rparr>"
  using assms
proof (induction stats arbitrary: st)
  case Nil
  then show ?case by simp
next
  case (Cons b bs)
  show ?case
  proof (cases "stat_start b \<le> stat_end b")
    case False
    then have s: "statStep env ct types st b =
        st\<lparr>firstSum := nextFirstSum env types (firstSum st) b\<rparr>"
      by (simp add: statStep_dropped)
    have p: "prevRow (st\<lparr>firstSum := nextFirstSum env types (firstSum st) b\<rparr>) i = prevRow st i"
      by (simp add: prevRow_def)
    show ?thesis
      using Cons.IH [of "st\<lparr>firstSum := nextFirstSum env types (firstSum st) b\<rparr>"]
        Cons.prems False
      by (simp add: s p keptRow_def)
  next
    case True
    let ?st1 = "statStep env ct types st b"
    note k = statStep_kept [OF True Cons.prems, of env ct types]
    have l: "i < length (loopDataSets ?st1)" using k(1) Cons.prems by simp
    show ?thesis
      using Cons.IH [OF l] k True
      by (simp add: keptRow_def split: option.splits)
  qed
qed

lemma typeLoop_fold:
  "presentTypes (foldl (typeStep env c stats meta name color sid) st ts) =
     presentTypes st @ filter (statisticsHaveType env stats) ts
   \<and> statDataSets (foldl (typeStep env c stats meta name color sid) st ts) =
     statDataSets st @
       map (newDataset env c stats meta name color sid) (filter (statisticsHaveType env stats) ts)"
  by (induction ts arbitrary: st) (simp_all add: typeStep_def Let_def)

lemma statisticTypeLoop_types:
  "presentTypes (statisticTypeLoop env c md k sid stats) = typesOf env c stats"
  by (simp add: statisticTypeLoop_def typeLoop_def typeLoop_fold typesOf_def)

lemma statisticTypeLoop_datasets:
  "statDataSets (statisticTypeLoop env c md k sid stats) =
     map (newDataset env c stats (md sid) (statisticName env c (md sid) sid)
            (getGraphColorByIndex env k) sid)
       (typesOf env c stats)"
  by (simp add: statisticTypeLoop_def typeLoop_def typeLoop_fold typesOf_def)

lemma newDataset_data: "ds_data (newDataset env c stats meta name color sid t) = []"
  by (simp add: newDataset_def Let_def)

lemma statisticDataSets_nth:
  assumes "i < length (typesOf env c stats)"
  shows "length (statisticDataSets env c md k sid stats) = length (typesOf env c stats)
       \<and> statisticDataSets env c md k sid stats ! i =
           (newDataset env c stats (md sid) (statisticName env c (md sid) sid)
              (getGraphColorByIndex env k) sid (typesOf env c stats ! i))
           \<lparr>ds_data := gapFrom (chartType c) None
               (filter keptRow (colRows env (typesOf env c stats) i None stats))\<rparr>"
proof -
  let ?st = "\<lparr>prevValues = None, prevEndTime = None, firstSum = None,
              loopDataSets = statDataSets (statisticTypeLoop env c md k sid stats)\<rparr>"
  have l: "i < length (loopDataSets ?st)"
    using assms by (simp add: statisticTypeLoop_datasets)
  from statLoop_fold [OF l, of env "chartType c" "typesOf env c stats" stats]
  show ?thesis
    using assms
    by (simp add: statisticDataSets_def Let_def statLoop_def statisticTypeLoop_types
          statisticTypeLoop_datasets newDataset_data prevRow_def)
qed

lemma statisticDataSets_length:
  "length (statisticDataSets env c md k sid stats) = length (typesOf env c stats)"
proof -
  have "length (loopDataSets (foldl (statStep env ct types) st xs)) = length (loopDataSets st)"
    for ct types xs and st :: "'a stat_loop"
  proof (induction xs arbitrary: st)
    case Nil
    then show ?case by simp
  next
    case (Cons b bs)
    have "length (loopDataSets (statStep env ct types st b)) = length (loopDataSets st)"
      by (simp add: statStep_eq pushData_def)
    with Cons.IH [of "statStep env ct types st b"] show ?case by simp
  qed
  then show ?thesis
    by (simp add: statisticDataSets_def Let_def statLoop_def statisticTypeLoop_datasets)
qed

lemma entry_fold:
  "totalDataSets (foldl (entryStep env c md) acc sd) =
     totalDataSets acc @ allDataSets env c md (colorIndex acc) sd"
proof (induction sd arbitrary: acc)
  case Nil
  then show ?case by (simp add: allDataSets_def)
next
  case (Cons e es)
  obtain sid stats where e: "e = (sid, stats)" by (cases e)
  show ?case
    using Cons.IH [of "entryStep env c md acc e"]
    by (simp add: e entryStep_def Let_def allDataSets_def)
qed

lemma generateData_datasets:
  assumes "generateData env c = Inr c'" and "statisticsData c = Some sd" and "sd \<noteq> []"
  shows "chartData c' = allDataSets env c (resolvedMetaData env c sd) 0 sd"
  using assms
  by (auto simp add: generateData_def Let_def entry_fold resolvedMetaData_def
        split: sum.splits option.splits)

lemma generateData_completes:
  assumes "statisticsData c = Some sd"
    and "endTime c \<noteq> None \<or> list_all (\<lambda>(sid, stats). stats \<noteq> []) sd"
  shows "\<exists>c'. generateData env c = Inr c'"
proof -
  have "list_all (\<lambda>(sid, stats). stats \<noteq> []) xs \<Longrightarrow> \<exists>ys. lastStarts xs = Inr ys" for xs
    by (induction xs rule: lastStarts.induct) auto
  then have ls: "endTime c = None \<Longrightarrow> \<exists>ys. lastStarts sd = Inr ys"
    using assms(2) by simp
  have "\<exists>e. computeEndTime env c sd = Inr e"
  proof (cases "endTime c")
    case None
    with ls obtain ys where "lastStarts sd = Inr ys" by blast
    with None show ?thesis by (simp add: computeEndTime_def)
  next
    case (Some e)
    then show ?thesis by (simp add: computeEndTime_def)
  qed
  then show ?thesis
    using assms(1) by (auto simp add: generateData_def Let_def)
qed


subsection \<open>Gap filling and the rows of a dataset\<close>

lemma gapFrom_append:
  "gapFrom ct prev (xs @ ys) =
     gapFrom ct prev xs @ gapFrom ct (foldl (\<lambda>p (s, e, v). Some (e, v)) prev xs) ys"
  by (induction ct prev xs rule: gapFrom.induct) simp_all

lemma gapFrom_head:
  "\<exists>G. gapFrom ct q ((s, e, v) # rows) =
         G @ \<lparr>pt_x = s, pt_y = v\<rparr> # gapFrom ct (Some (e, v)) rows"
  by simp

lemma gapFrom_not_line:
  assumes "ct \<noteq> Line"
  shows "gapFrom ct prev rows = displayPoints rows"
  using assms
  by (induction ct prev rows rule: gapFrom.induct)
     (simp_all add: displayPoints_def split: option.splits)

lemma gapFrom_subseq: "subseq (displayPoints rows) (gapFrom ct prev rows)"
proof (induction ct prev rows rule: gapFrom.induct)
  case (1 ct prev)
  then show ?case by (simp add: displayPoints_def)
next
  case (2 ct prev s e v rows)
  have "subseq (\<lparr>pt_x = s, pt_y = v\<rparr> # displayPoints rows)
          (\<lparr>pt_x = s, pt_y = v\<rparr> # gapFrom ct (Some (e, v)) rows)"
    using 2 by simp
  then have "subseq (\<lparr>pt_x = s, pt_y = v\<rparr> # displayPoints rows)
          (G @ \<lparr>pt_x = s, pt_y = v\<rparr> # gapFrom ct (Some (e, v)) rows)" for G
    by (rule list_emb_append2)
  then show ?case by (simp add: displayPoints_def)
qed

lemma gapFrom_length: "length (gapFrom ct prev rows) \<le> 3 * length rows"
proof (induction ct prev rows rule: gapFrom.induct)
  case (1 ct prev)
  then show ?case by simp
next
  case (2 ct prev s e v rows)
  have "length (case prev of None \<Rightarrow> []
          | Some (pe, pv) \<Rightarrow>
              if ct = Line \<and> pe \<noteq> s
              then [\<lparr>pt_x = pe, pt_y = pv\<rparr>, \<lparr>pt_x = pe, pt_y = None\<rparr>]
              else []) \<le> 2"
    by (simp split: option.splits)
  with 2 show ?case by simp
qed

lemma colRows_append:
  "colRows env types i fs (xs @ ys) =
     colRows env types i fs xs
       @ colRows env types i (foldl (nextFirstSum env types) fs xs) ys"
  by (induction xs arbitrary: fs) simp_all

text \<open>The value of a type other than \<open>sum\<close> is the value the bucket has for it.\<close>

lemma rowValues_other:
  assumes "i < length types" and "types ! i \<noteq> T_sum"
  shows "js_index (rowValues env types fs stat) i = stat_field stat (types ! i)"
  using assms
proof (induction types arbitrary: i fs)
  case Nil
  then show ?case by simp
next
  case (Cons t ts)
  show ?case
  proof (cases i)
    case 0
    with Cons.prems show ?thesis
      by (simp add: js_index_def rowValues_Cons rowValues_length)
  next
    case (Suc j)
    with Cons.prems Cons.IH [of j] show ?thesis
      by (auto simp add: js_index_def rowValues_Cons rowValues_length split: option.splits)
  qed
qed







lemma colRows_other:
  assumes "i < length types" and "types ! i \<noteq> T_sum"
  shows "colRows env types i fs stats =
     map (\<lambda>b. (stat_start b, stat_end b, stat_field b (types ! i))) stats"
  using assms by (induction stats arbitrary: fs) (simp_all add: rowValues_other)



lemma colRows_length: "length (colRows env types i fs stats) = length stats"
  by (induction stats arbitrary: fs) simp_all

lemma filter_keptRow_map:
  "filter keptRow (map (\<lambda>b. (stat_start b, stat_end b, f b)) stats) =
     map (\<lambda>b. (stat_start b, stat_end b, f b)) (filter keptBucket stats)"
  by (induction stats) (simp_all add: keptRow_def keptBucket_def)

lemma typesOf_set:
  "set (typesOf env c stats) = {t \<in> set (statTypes c). statisticsHaveType env stats t}"
  by (auto simp add: typesOf_def sortedTypes_def sortTypes_def)

lemma single_dataset:
  assumes "typesOf env c stats = [t]"
  shows "map ds_data (statisticDataSets env c md k sid stats) =
     [gapFrom (chartType c) None (filter keptRow (colRows env [t] 0 None stats))]"
proof -
  have l: "length (statisticDataSets env c md k sid stats) = 1"
    by (simp add: statisticDataSets_length assms)
  then obtain d where d: "statisticDataSets env c md k sid stats = [d]"
    by (cases "statisticDataSets env c md k sid stats") auto
  have "0 < length (typesOf env c stats)" by (simp add: assms)
  from statisticDataSets_nth [OF this, of md k sid]
  show ?thesis by (simp add: d assms)
qed

lemma example_gap_points:
  "map ds_data (statisticDataSets example_env example_chart Map.empty 0 ''sensor.a''
                [bucket 0 10 (Some 1) None, bucket 20 30 (Some 2) None]) =
     [[\<lparr>pt_x = 0, pt_y = Some 1\<rparr>, \<lparr>pt_x = 10, pt_y = Some 1\<rparr>,
       \<lparr>pt_x = 10, pt_y = None\<rparr>, \<lparr>pt_x = 20, pt_y = Some 2\<rparr>]]"
  by code_simp

lemma dataset_size_bound:
  assumes "i < length (statisticDataSets env c md k sid stats)"
  shows "length (ds_data (statisticDataSets env c md k sid stats ! i)) \<le> 3 * length stats"
proof -
  from assms have i: "i < length (typesOf env c stats)"
    by (simp add: statisticDataSets_length)
  have "length (filter keptRow (colRows env (typesOf env c stats) i None stats))
          \<le> length stats"
    using length_filter_le [of keptRow] by (metis colRows_length)
  with gapFrom_length [of "chartType c" None
      "filter keptRow (colRows env (typesOf env c stats) i None stats)"]
  show ?thesis
    using statisticDataSets_nth [OF i, of md k sid] by simp
qed

subsection \<open>The end time plays no part in a run that completes\<close>

lemma statisticName_endTime:
  "statisticName (env\<lparr>now := n\<rparr>) (c\<lparr>endTime := e\<rparr>) meta sid = statisticName env c meta sid"
  by (simp add: statisticName_def split: option.splits)

lemma hasMean_endTime:
  "hasMean (env\<lparr>now := n\<rparr>) (c\<lparr>endTime := e\<rparr>) stats = hasMean env c stats"
  by (simp add: hasMean_def)

lemma drawBands_endTime:
  "drawBands (env\<lparr>now := n\<rparr>) (c\<lparr>endTime := e\<rparr>) stats = drawBands env c stats"
  by (simp add: drawBands_def hasMean_endTime)

lemma type_label_endTime:
  "type_label (env\<lparr>now := n\<rparr>) t = type_label env t"
  by (simp add: type_label_def)

lemma newDataset_endTime:
  "newDataset (env\<lparr>now := n\<rparr>) (c\<lparr>endTime := e\<rparr>) stats meta name color sid t =
     newDataset env c stats meta name color sid t"
  unfolding newDataset_def hasMean_endTime drawBands_endTime type_label_endTime
  by simp

lemma typeStep_endTime:
  "typeStep (env\<lparr>now := n\<rparr>) (c\<lparr>endTime := e\<rparr>) stats meta name color sid st t =
     typeStep env c stats meta name color sid st t"
  unfolding typeStep_def hasMean_endTime newDataset_endTime
  by simp

lemma sortedTypes_endTime:
  "sortedTypes (env\<lparr>now := n\<rparr>) (c\<lparr>endTime := e\<rparr>) stats = sortedTypes env c stats"
  unfolding sortedTypes_def drawBands_endTime by simp

lemma statisticTypeLoop_endTime:
  "statisticTypeLoop (env\<lparr>now := n\<rparr>) (c\<lparr>endTime := e\<rparr>) md k sid stats =
     statisticTypeLoop env c md k sid stats"
proof -
  have "typeStep (env\<lparr>now := n\<rparr>) (c\<lparr>endTime := e\<rparr>) stats meta name color sid =
        typeStep env c stats meta name color sid" for meta name color
    by (intro ext) (rule typeStep_endTime)
  then show ?thesis
    unfolding statisticTypeLoop_def typeLoop_def sortedTypes_endTime statisticName_endTime
    by simp
qed

lemma dataValueStep_now:
  "dataValueStep (env\<lparr>now := n\<rparr>) stat acc t = dataValueStep env stat acc t"
proof -
  have "sum_or_0 (env\<lparr>now := n\<rparr>) stat = sum_or_0 env stat"
    by (simp add: sum_or_0_def split: option.splits)
  then show ?thesis
    by (cases acc) (simp add: dataValueStep_def split: option.splits)
qed

lemma statLoop_now:
  "statLoop (env\<lparr>now := n\<rparr>) ct types datasets stats = statLoop env ct types datasets stats"
proof -
  have "dataValueStep (env\<lparr>now := n\<rparr>) stat = dataValueStep env stat" for stat
    by (intro ext) (rule dataValueStep_now)
  then have "statStep (env\<lparr>now := n\<rparr>) ct types = statStep env ct types"
    by (intro ext) (simp add: statStep_def)
  then show ?thesis
    by (simp add: statLoop_def)
qed

lemma statisticDataSets_endTime:
  "statisticDataSets (env\<lparr>now := n\<rparr>) (c\<lparr>endTime := e\<rparr>) md k sid stats =
     statisticDataSets env c md k sid stats"
  unfolding statisticDataSets_def statisticTypeLoop_endTime statLoop_now by simp

lemma entryStep_endTime:
  "entryStep (env\<lparr>now := n\<rparr>) (c\<lparr>endTime := e\<rparr>) md acc entry = entryStep env c md acc entry"
  unfolding entryStep_def statisticTypeLoop_endTime statisticDataSets_endTime ..

lemma generateData_Inr:
  assumes "generateData env c = Inr c'"
  shows "(chartData c', chartDatasetExtra c', statisticIds c') =
     (case statisticsData c of
        None \<Rightarrow> (chartData c, chartDatasetExtra c, statisticIds c)
      | Some sd \<Rightarrow>
          if sd = [] then (chartData c, chartDatasetExtra c, statisticIds c)
          else (let acc = foldl (entryStep env c (resolvedMetaData env c sd))
                            \<lparr>colorIndex = 0, totalDataSets = [],
                             totalDatasetExtras = [], totalIds = []\<rparr> sd
                in (totalDataSets acc, totalDatasetExtras acc, totalIds acc)))"
proof (cases "statisticsData c")
  case None
  with assms show ?thesis by (simp add: generateData_def)
next
  case (Some sd)
  show ?thesis
  proof (cases "sd = []")
    case True
    with assms Some show ?thesis by (simp add: generateData_def Let_def)
  next
    case False
    with assms Some obtain e where "computeEndTime env c sd = Inr e"
      by (cases "computeEndTime env c sd") (simp_all add: generateData_def Let_def)
    with assms Some False show ?thesis
      by (auto simp add: generateData_def Let_def resolvedMetaData_def)
  qed
qed

lemma generateData_endTime_independent:
  assumes "generateData env (c\<lparr>endTime := e1\<rparr>) = Inr c1"
    and "generateData (env\<lparr>now := n\<rparr>) (c\<lparr>endTime := e2\<rparr>) = Inr c2"
  shows "chartData c1 = chartData c2 \<and> chartDatasetExtra c1 = chartDatasetExtra c2
       \<and> statisticIds c1 = statisticIds c2"
proof -
  have a: "entryStep (env\<lparr>now := n'\<rparr>) (c\<lparr>endTime := e\<rparr>) md = entryStep env c md" for n' e md
    by (intro ext) (rule entryStep_endTime)
  have b: "entryStep env (c\<lparr>endTime := e\<rparr>) md = entryStep env c md" for e md
    using a [of "now env" e md] by simp
  have r: "resolvedMetaData (env\<lparr>now := n'\<rparr>) (c\<lparr>endTime := e\<rparr>) sd = resolvedMetaData env c sd"
    for n' e sd
    by (simp add: resolvedMetaData_def split: option.splits)
  have r': "resolvedMetaData env (c\<lparr>endTime := e\<rparr>) sd = resolvedMetaData env c sd" for e sd
    by (simp add: resolvedMetaData_def)
  from generateData_Inr [OF assms(1)] generateData_Inr [OF assms(2)]
  have "(chartData c1, chartDatasetExtra c1, statisticIds c1) =
        (chartData c2, chartDatasetExtra c2, statisticIds c2)"
    by (cases "statisticsData c") (simp_all add: a b r r')
  then show ?thesis by simp
qed


subsection \<open>The claims about the statistics chart\<close>

text \<open>
  Claim C5, as the code has it. When the chart has no statistics data (the property is
  absent or holds no statistic) it renders a localized message and never the chart: the
  message that history is disabled when the \<open>history\<close> component is not loaded;
  otherwise the loading message while data is loading and none has arrived; otherwise the
  message that no statistics were found.
\<close>

theorem render_placeholder:
  assumes "statisticsData c = None \<or> statisticsData c = Some []"
  shows "render env c =
     Info (chart_localize env
       (if \<not> isComponentLoaded env ''history''
        then ''ui.components.history_charts.history_disabled''
        else if isLoadingData c \<and> statisticsData c = None
        then ''ui.components.statistics_charts.loading_statistics''
        else ''ui.components.statistics_charts.no_statistics_found''))"
  using assms by (auto simp add: render_def)

theorem render_placeholder_witness:
  "render example_env (example_chart\<lparr>isLoadingData := True\<rparr>) =
     Info ''ui.components.statistics_charts.loading_statistics''
   \<and> render example_env (example_chart\<lparr>statisticsData := Some []\<rparr>) =
     Info ''ui.components.statistics_charts.no_statistics_found''"
  using render_placeholder [of "example_chart\<lparr>isLoadingData := True\<rparr>" example_env]
    render_placeholder [of "example_chart\<lparr>statisticsData := Some []\<rparr>" example_env]
  by (simp add: example_env_def example_chart_def)

text \<open>
  The claim as the specification states it (while data is loading and none has arrived,
  the loading placeholder is rendered) fails where the \<open>history\<close> component is not
  loaded: \<open>render\<close> checks that first and shows the message that history is disabled.
\<close>

theorem render_loading_counterexample:
  "isLoadingData (example_chart\<lparr>isLoadingData := True\<rparr>)
   \<and> statisticsData (example_chart\<lparr>isLoadingData := True\<rparr>) = None
   \<and> render (example_env\<lparr>isComponentLoaded := (\<lambda>name. False)\<rparr>)
        (example_chart\<lparr>isLoadingData := True\<rparr>) =
      Info ''ui.components.history_charts.history_disabled''
   \<and> render (example_env\<lparr>isComponentLoaded := (\<lambda>name. False)\<rparr>)
        (example_chart\<lparr>isLoadingData := True\<rparr>) \<noteq>
      Info (chart_localize (example_env\<lparr>isComponentLoaded := (\<lambda>name. False)\<rparr>)
        ''ui.components.statistics_charts.loading_statistics'')"
  by (simp add: render_def example_env_def example_chart_def)

lemma map_singleton:
  assumes "length xs = 1"
  shows "map f xs = [f (xs ! 0)]"
  using assms by (cases xs) auto

text \<open>
  Claim C2, as the code has it. When \<open>_generateData\<close> completes for a line chart, the
  datasets of the chart are those of the statistics in input order, and for two
  consecutive buckets of a statistic that are both plotted (neither starts after it ends)
  and of which the second does not start where the first ends, every dataset of the
  statistic holds, right after the display point of the first bucket and right before the
  display point of the second, a point at the end time of the first bucket with the value
  of the first bucket and then the gap point: a point at that end time with no value.
  (A bucket that starts after it ends is dropped by \<open>pushData\<close>: it gets no display point
  and no gap point.)
\<close>

theorem gap_point_between_buckets:
  assumes gen: "generateData env c = Inr c'"
    and sd: "statisticsData c = Some sd"
    and entry: "k < length sd" "sd ! k = (sid, stats)"
    and line: "chartType c = Line"
    and stats: "stats = pre @ b1 # b2 # post"
    and kept: "keptBucket b1" "keptBucket b2"
    and gap: "stat_end b1 \<noteq> stat_start b2"
  shows "chartData c' = allDataSets env c (resolvedMetaData env c sd) 0 sd
    \<and> (\<forall>i < length (statisticDataSets env c (resolvedMetaData env c sd) k sid stats).
         \<exists>A B y1 y2.
           ds_data (statisticDataSets env c (resolvedMetaData env c sd) k sid stats ! i) =
             A @ [\<lparr>pt_x = stat_start b1, pt_y = y1\<rparr>,
                  \<lparr>pt_x = stat_end b1, pt_y = y1\<rparr>,
                  \<lparr>pt_x = stat_end b1, pt_y = None\<rparr>,
                  \<lparr>pt_x = stat_start b2, pt_y = y2\<rparr>] @ B)"
proof (intro conjI allI impI)
  let ?md = "resolvedMetaData env c sd"
  from entry have "sd \<noteq> []" by auto
  with gen sd show "chartData c' = allDataSets env c ?md 0 sd"
    by (rule generateData_datasets)
  fix i
  assume i: "i < length (statisticDataSets env c ?md k sid stats)"
  let ?P = "typesOf env c stats"
  have i': "i < length ?P"
    using i by (simp add: statisticDataSets_length)
  define fs1 where "fs1 = foldl (nextFirstSum env ?P) None pre"
  define fs2 where "fs2 = nextFirstSum env ?P fs1 b1"
  define y1 where "y1 = js_index (rowValues env ?P fs1 b1) i"
  define y2 where "y2 = js_index (rowValues env ?P fs2 b2) i"
  define F1 where "F1 = filter keptRow (colRows env ?P i None pre)"
  define F2 where "F2 = filter keptRow (colRows env ?P i (nextFirstSum env ?P fs2 b2) post)"
  let ?r1 = "(stat_start b1, stat_end b1, y1)"
  let ?r2 = "(stat_start b2, stat_end b2, y2)"
  have rows: "filter keptRow (colRows env ?P i None (pre @ b1 # b2 # post)) = F1 @ ?r1 # ?r2 # F2"
    using kept
    by (simp add: colRows_append fs1_def fs2_def y1_def y2_def F1_def F2_def keptRow_def
          keptBucket_def)
  obtain q where split: "gapFrom Line None (F1 @ ?r1 # ?r2 # F2) =
      gapFrom Line None F1 @ gapFrom Line q (?r1 # ?r2 # F2)"
    using gapFrom_append [of Line None F1 "?r1 # ?r2 # F2"] by blast
  obtain G where head: "gapFrom Line q (?r1 # ?r2 # F2) =
      G @ \<lparr>pt_x = stat_start b1, pt_y = y1\<rparr> # gapFrom Line (Some (stat_end b1, y1)) (?r2 # F2)"
    using gapFrom_head [of Line q "stat_start b1" "stat_end b1" y1 "?r2 # F2"] by blast
  have next_row: "gapFrom Line (Some (stat_end b1, y1)) (?r2 # F2) =
      [\<lparr>pt_x = stat_end b1, pt_y = y1\<rparr>, \<lparr>pt_x = stat_end b1, pt_y = None\<rparr>,
       \<lparr>pt_x = stat_start b2, pt_y = y2\<rparr>] @ gapFrom Line (Some (stat_end b2, y2)) F2"
    using gap by simp
  have "ds_data (statisticDataSets env c ?md k sid stats ! i) =
      gapFrom Line None (F1 @ ?r1 # ?r2 # F2)"
    using statisticDataSets_nth [OF i', of ?md k sid] rows line stats by simp
  also have "\<dots> = (gapFrom Line None F1 @ G) @
          [\<lparr>pt_x = stat_start b1, pt_y = y1\<rparr>,
           \<lparr>pt_x = stat_end b1, pt_y = y1\<rparr>,
           \<lparr>pt_x = stat_end b1, pt_y = None\<rparr>,
           \<lparr>pt_x = stat_start b2, pt_y = y2\<rparr>]
          @ gapFrom Line (Some (stat_end b2, y2)) F2"
    by (simp only: split head next_row) simp
  finally show "\<exists>A B y1 y2.
      ds_data (statisticDataSets env c ?md k sid stats ! i) =
        A @ [\<lparr>pt_x = stat_start b1, pt_y = y1\<rparr>,
             \<lparr>pt_x = stat_end b1, pt_y = y1\<rparr>,
             \<lparr>pt_x = stat_end b1, pt_y = None\<rparr>,
             \<lparr>pt_x = stat_start b2, pt_y = y2\<rparr>] @ B"
    by blast
qed

theorem gap_point_between_buckets_witness:
  "case generateData example_env
          (example_chart\<lparr>statisticsData :=
             Some [(''sensor.a'', [bucket 0 10 (Some 1) None, bucket 20 30 (Some 2) None])]\<rparr>) of
     Inl err \<Rightarrow> False
   | Inr c' \<Rightarrow>
       (\<exists>A B y1 y2. map ds_data (chartData c') =
          [A @ [\<lparr>pt_x = 0, pt_y = y1\<rparr>, \<lparr>pt_x = 10, pt_y = y1\<rparr>,
                \<lparr>pt_x = 10, pt_y = None\<rparr>, \<lparr>pt_x = 20, pt_y = y2\<rparr>] @ B])"
proof -
  let ?b1 = "bucket 0 10 (Some 1) None :: int StatisticValue"
  let ?b2 = "bucket 20 30 (Some 2) None :: int StatisticValue"
  let ?sd = "[(''sensor.a'', [?b1, ?b2])]"
  let ?c = "example_chart\<lparr>statisticsData := Some ?sd\<rparr>"
  let ?md = "resolvedMetaData example_env ?c ?sd"
  have sd: "statisticsData ?c = Some ?sd" by simp
  obtain c' where gen: "generateData example_env ?c = Inr c'"
    using generateData_completes [OF sd, of example_env] by auto
  have entry: "0 < length ?sd" "?sd ! 0 = (''sensor.a'', [?b1, ?b2])"
    by simp_all
  have line: "chartType ?c = Line"
    by (simp add: example_chart_def)
  have stats: "[?b1, ?b2] = [] @ ?b1 # ?b2 # []"
    by simp
  have kept: "keptBucket ?b1" "keptBucket ?b2"
    by (simp_all add: keptBucket_def bucket_def)
  have gap: "stat_end ?b1 \<noteq> stat_start ?b2"
    by (simp add: bucket_def)
  have types: "typesOf example_env ?c [?b1, ?b2] = [T_mean]"
    by (simp add: typesOf_def sortedTypes_def drawBands_def hasMean_def sortTypes_def
          example_env_def example_chart_def bucket_def)
  have n: "length (statisticDataSets example_env ?c ?md 0 ''sensor.a'' [?b1, ?b2]) = 1"
    by (simp add: statisticDataSets_length types)
  have e: "stat_start ?b1 = 0" "stat_end ?b1 = 10" "stat_start ?b2 = 20"
    by (simp_all add: bucket_def)
  note main = gap_point_between_buckets [OF gen sd entry line stats kept gap]
  have cd: "chartData c' = statisticDataSets example_env ?c ?md 0 ''sensor.a'' [?b1, ?b2]"
    using main by (simp add: allDataSets_def)
  from main n obtain A B y1 y2 where
    "ds_data (statisticDataSets example_env ?c ?md 0 ''sensor.a'' [?b1, ?b2] ! 0) =
       A @ [\<lparr>pt_x = 0, pt_y = y1\<rparr>, \<lparr>pt_x = 10, pt_y = y1\<rparr>,
            \<lparr>pt_x = 10, pt_y = None\<rparr>, \<lparr>pt_x = 20, pt_y = y2\<rparr>] @ B"
    unfolding e by auto
  then have "\<exists>A B y1 y2. map ds_data (chartData c') =
      [A @ [\<lparr>pt_x = 0, pt_y = y1\<rparr>, \<lparr>pt_x = 10, pt_y = y1\<rparr>,
            \<lparr>pt_x = 10, pt_y = None\<rparr>, \<lparr>pt_x = 20, pt_y = y2\<rparr>] @ B]"
    unfolding cd map_singleton [OF n] by blast
  then show ?thesis
    by (simp add: gen)
qed

text \<open>
  The claim as the specification states it (a gap point between any two consecutive
  buckets that are not contiguous) fails where a bucket is dropped: the first bucket
  starts at 50 and ends at 40, the second starts at 60, and the dataset of the line chart
  holds the display point of the second bucket only.
\<close>

theorem gap_point_dropped_bucket_counterexample:
  "chartType (example_chart :: int StatisticsChart) = Line
   \<and> stat_end (bucket 50 40 (Some (1 :: int)) None) \<noteq> stat_start (bucket 60 70 (Some (2 :: int)) None)
   \<and> (case generateData example_env
            (example_chart\<lparr>statisticsData :=
               Some [(''sensor.a'', [bucket 50 40 (Some 1) None, bucket 60 70 (Some 2) None])]\<rparr>) of
        Inl err \<Rightarrow> False
      | Inr c' \<Rightarrow> map ds_data (chartData c') = [[\<lparr>pt_x = 60, pt_y = Some 2\<rparr>]])"
proof -
  let ?stats = "[bucket 50 40 (Some 1) None, bucket 60 70 (Some 2) None] :: int StatisticValue list"
  let ?sd = "[(''sensor.a'', ?stats)]"
  let ?c = "example_chart\<lparr>statisticsData := Some ?sd\<rparr>"
  have sd: "statisticsData ?c = Some ?sd" by simp
  obtain c' where gen: "generateData example_env ?c = Inr c'"
    using generateData_completes [OF sd, of example_env] by auto
  have types: "typesOf example_env ?c ?stats = [T_mean]"
    by (simp add: typesOf_def sortedTypes_def drawBands_def hasMean_def sortTypes_def
          example_env_def example_chart_def bucket_def)
  have cd: "chartData c' =
      statisticDataSets example_env ?c (resolvedMetaData example_env ?c ?sd) 0 ''sensor.a'' ?stats"
    using generateData_datasets [OF gen sd] by (simp add: allDataSets_def)
  have g: "gapFrom (chartType ?c) None (filter keptRow (colRows example_env [T_mean] 0 None ?stats))
           = [\<lparr>pt_x = 60, pt_y = Some 2\<rparr>]"
    by (simp add: keptRow_def rowValues_Cons rowValues_Nil js_index_def bucket_def)
  have "map ds_data (chartData c') = [[\<lparr>pt_x = 60, pt_y = Some 2\<rparr>]]"
    unfolding cd single_dataset [OF types] g ..
  moreover have "chartType (example_chart :: int StatisticsChart) = Line"
    by (simp add: example_chart_def)
  moreover have "stat_end (bucket 50 40 (Some (1 :: int)) None)
      \<noteq> stat_start (bucket 60 70 (Some (2 :: int)) None)"
    by (simp add: bucket_def)
  ultimately show ?thesis
    by (simp add: gen)
qed

text \<open>
  Claim C4, as the code has it. When \<open>_generateData\<close> completes, the datasets of the
  chart are those of the statistics in input order, and for every statistic and every
  requested type other than \<open>sum\<close> that the statistic has there is a dataset of that
  type; the points of each such dataset are, in input order, one display point per bucket
  that does not start after it ends, at the start time of the bucket and with the value
  the bucket has for the type (none when absent), with the gap points of C2 before a
  display point in a line chart and nothing else: the display points are a subsequence of
  the data, and in a chart that is not a line chart they are all of it. Buckets that start
  after they end contribute nothing. (The \<open>sum\<close> dataset is plotted relative to a
  baseline, see C9.)
\<close>

theorem dataset_display_points:
  assumes gen: "generateData env c = Inr c'"
    and sd: "statisticsData c = Some sd"
    and entry: "k < length sd" "sd ! k = (sid, stats)"
    and requested: "t \<in> set (statTypes c)"
    and present: "statisticsHaveType env stats t"
    and t: "t \<noteq> T_sum"
  shows "chartData c' = allDataSets env c (resolvedMetaData env c sd) 0 sd
    \<and> (\<exists>i < length (statisticDataSets env c (resolvedMetaData env c sd) k sid stats).
          typesOf env c stats ! i = t)
    \<and> (\<forall>i < length (statisticDataSets env c (resolvedMetaData env c sd) k sid stats).
          typesOf env c stats ! i = t \<longrightarrow>
            ds_data (statisticDataSets env c (resolvedMetaData env c sd) k sid stats ! i) =
              gapFrom (chartType c) None
                (map (\<lambda>b. (stat_start b, stat_end b, stat_field b t)) (filter keptBucket stats))
            \<and> subseq
                (map (\<lambda>b. \<lparr>pt_x = stat_start b, pt_y = stat_field b t\<rparr>) (filter keptBucket stats))
                (ds_data (statisticDataSets env c (resolvedMetaData env c sd) k sid stats ! i))
            \<and> (chartType c = Line \<or>
                ds_data (statisticDataSets env c (resolvedMetaData env c sd) k sid stats ! i) =
                  map (\<lambda>b. \<lparr>pt_x = stat_start b, pt_y = stat_field b t\<rparr>)
                    (filter keptBucket stats)))"
proof (intro conjI allI impI)
  let ?md = "resolvedMetaData env c sd"
  let ?rows = "map (\<lambda>b. (stat_start b, stat_end b, stat_field b t)) (filter keptBucket stats)"
  have dp: "displayPoints ?rows =
      map (\<lambda>b. \<lparr>pt_x = stat_start b, pt_y = stat_field b t\<rparr>) (filter keptBucket stats)"
    by (simp add: displayPoints_def comp_def)
  from entry have "sd \<noteq> []" by auto
  with gen sd show "chartData c' = allDataSets env c ?md 0 sd"
    by (rule generateData_datasets)
  from requested present have "t \<in> set (typesOf env c stats)"
    by (simp add: typesOf_set)
  then show "\<exists>i < length (statisticDataSets env c ?md k sid stats). typesOf env c stats ! i = t"
    by (simp add: statisticDataSets_length in_set_conv_nth)
  fix i
  assume i: "i < length (statisticDataSets env c ?md k sid stats)"
    and ti: "typesOf env c stats ! i = t"
  from i have i': "i < length (typesOf env c stats)"
    by (simp add: statisticDataSets_length)
  show data: "ds_data (statisticDataSets env c ?md k sid stats ! i) =
      gapFrom (chartType c) None ?rows"
  proof -
    have ne: "typesOf env c stats ! i \<noteq> T_sum"
      using ti t by simp
    have rows: "colRows env (typesOf env c stats) i None stats =
        map (\<lambda>b. (stat_start b, stat_end b, stat_field b t)) stats"
      using colRows_other [OF i' ne, of env None stats] ti by simp
    show ?thesis
      using statisticDataSets_nth [OF i', of ?md k sid]
      by (simp add: rows filter_keptRow_map)
  qed
  show "subseq
      (map (\<lambda>b. \<lparr>pt_x = stat_start b, pt_y = stat_field b t\<rparr>) (filter keptBucket stats))
      (ds_data (statisticDataSets env c ?md k sid stats ! i))"
    unfolding data dp [symmetric] by (rule gapFrom_subseq)
  show "chartType c = Line \<or>
      ds_data (statisticDataSets env c ?md k sid stats ! i) =
        map (\<lambda>b. \<lparr>pt_x = stat_start b, pt_y = stat_field b t\<rparr>) (filter keptBucket stats)"
    unfolding data dp [symmetric] using gapFrom_not_line [of "chartType c"] by blast
qed

theorem dataset_display_points_witness:
  "ds_data (statisticDataSets example_env
       (example_chart\<lparr>statisticsData :=
          Some [(''sensor.a'', [bucket 0 10 (Some 1) None, bucket 20 30 (Some 2) None])]\<rparr>)
       Map.empty 0 ''sensor.a''
       [bucket 0 10 (Some 1) None, bucket 20 30 (Some 2) None] ! 0) =
     [\<lparr>pt_x = 0, pt_y = Some 1\<rparr>, \<lparr>pt_x = 10, pt_y = Some 1\<rparr>,
      \<lparr>pt_x = 10, pt_y = None\<rparr>, \<lparr>pt_x = 20, pt_y = Some 2\<rparr>]"
proof -
  let ?stats = "[bucket 0 10 (Some 1) None, bucket 20 30 (Some 2) None]"
  let ?sd = "[(''sensor.a'', ?stats)]"
  let ?c = "example_chart\<lparr>statisticsData := Some ?sd\<rparr>"
  have all: "list_all (\<lambda>(sid, stats). stats \<noteq> []) ?sd"
    by simp
  obtain c' where gen: "generateData example_env ?c = Inr c'"
    using generateData_completes [of ?c ?sd example_env] all by auto
  have sd: "statisticsData ?c = Some ?sd"
    by simp
  have entry: "0 < length ?sd" "?sd ! 0 = (''sensor.a'', ?stats)"
    by simp_all
  have requested: "T_mean \<in> set (statTypes ?c)"
    by (simp add: example_chart_def)
  have present: "statisticsHaveType example_env ?stats T_mean"
    by (simp add: example_env_def bucket_def)
  have md: "resolvedMetaData example_env ?c ?sd = Map.empty"
    by (simp add: resolvedMetaData_def example_env_def example_chart_def)
  have types: "typesOf example_env ?c ?stats = [T_mean]"
    by (simp add: typesOf_def sortedTypes_def drawBands_def hasMean_def sortTypes_def
          example_env_def example_chart_def bucket_def)
  let ?md = "resolvedMetaData example_env ?c ?sd"
  have len: "0 < length (statisticDataSets example_env ?c ?md 0 ''sensor.a'' ?stats)"
    by (simp add: statisticDataSets_length types)
  have ti: "typesOf example_env ?c ?stats ! 0 = T_mean"
    by (simp add: types)
  have neq: "T_mean \<noteq> T_sum"
    by simp
  note main = dataset_display_points [OF gen sd entry requested present neq]
  note at0 = main [THEN conjunct2, THEN conjunct2, rule_format, OF len ti, THEN conjunct1]
  have g: "gapFrom (chartType ?c) None
      (map (\<lambda>b. (stat_start b, stat_end b, stat_field b T_mean)) (filter keptBucket ?stats)) =
     [\<lparr>pt_x = 0, pt_y = Some 1\<rparr>, \<lparr>pt_x = 10, pt_y = Some 1\<rparr>,
      \<lparr>pt_x = 10, pt_y = None\<rparr>, \<lparr>pt_x = 20, pt_y = Some 2\<rparr>]"
    by (simp add: keptBucket_def bucket_def example_chart_def)
  show ?thesis
    using at0 unfolding md g .
qed

text \<open>
  The claim as the specification states it (the y of a display point is the bucket's value
  for the type) fails for the type \<open>sum\<close>: a single bucket with the sum 5 is plotted
  as 0.
\<close>

theorem sum_dataset_counterexample:
  "T_sum \<in> set (statTypes (example_chart :: int StatisticsChart))
   \<and> statisticsHaveType example_env [bucket 0 10 None (Some 5)] T_sum
   \<and> stat_field (bucket 0 10 None (Some (5 :: int))) T_sum = Some 5
   \<and> (case generateData example_env
            (example_chart\<lparr>statisticsData :=
               Some [(''sensor.a'', [bucket 0 10 None (Some 5)])]\<rparr>) of
        Inl err \<Rightarrow> False
      | Inr c' \<Rightarrow> map ds_data (chartData c') = [[\<lparr>pt_x = 0, pt_y = Some 0\<rparr>]])"
proof -
  let ?sd = "[(''sensor.a'', [bucket 0 10 None (Some 5)])]"
  let ?c = "example_chart\<lparr>statisticsData := Some ?sd\<rparr>"
  have sd: "statisticsData ?c = Some ?sd" by simp
  obtain c' where gen: "generateData example_env ?c = Inr c'"
    using generateData_completes [OF sd, of example_env] by auto
  have types: "typesOf example_env ?c [bucket 0 10 None (Some 5)] = [T_sum]"
    by (simp add: typesOf_def sortedTypes_def drawBands_def hasMean_def sortTypes_def
          example_env_def example_chart_def bucket_def)
  have cd: "chartData c' =
      statisticDataSets example_env ?c (resolvedMetaData example_env ?c ?sd) 0 ''sensor.a''
        [bucket 0 10 None (Some 5)]"
    using generateData_datasets [OF gen sd] by (simp add: allDataSets_def)
  have g: "gapFrom (chartType ?c) None
             (filter keptRow (colRows example_env [T_sum] 0 None [bucket 0 10 None (Some 5)])) =
           [\<lparr>pt_x = 0, pt_y = Some 0\<rparr>]"
    by (simp add: keptRow_def rowValues_Cons rowValues_Nil js_index_def bucket_def
          example_env_def)
  have "map ds_data (chartData c') = [[\<lparr>pt_x = 0, pt_y = Some 0\<rparr>]]"
    unfolding cd single_dataset [OF types] g ..
  moreover have "T_sum \<in> set (statTypes (example_chart :: int StatisticsChart))"
    by (simp add: example_chart_def)
  moreover have "statisticsHaveType example_env [bucket 0 10 None (Some 5)] T_sum"
    by (simp add: example_env_def bucket_def)
  moreover have "stat_field (bucket 0 10 None (Some (5 :: int))) T_sum = Some 5"
    by (simp add: bucket_def)
  ultimately show ?thesis
    by (simp add: gen)
qed



text \<open>
  Claim C7 at a failing input. With no \<open>endTime\<close> set, \<open>_generateData\<close> reads the
  start of the last bucket of every statistic before its main loop; for a statistic with
  no bucket that read throws a TypeError, and no statistic is processed: here the first
  statistic has a bucket, the second has none, and the call ends in the error. (Lemma
  \<open>generateData_completes\<close> shows that this is the only way to fail, and lemma
  \<open>dataset_size_bound\<close> that a dataset never holds more than three points per bucket.)
\<close>

theorem generateData_throws_without_buckets:
  "generateData example_env
     (example_chart\<lparr>statisticsData :=
        Some [(''sensor.a'', [bucket 0 10 (Some 1) None]), (''sensor.b'', [])]\<rparr>)
   = Inl TypeError"
  by (simp add: generateData_def computeEndTime_def example_chart_def Let_def)

text \<open>
  Claim C8 at a failing input. Two runs on the same statistics, one of which has no
  bucket, that differ in \<open>endTime\<close> only: with \<open>endTime\<close> unset the run throws the
  TypeError above and generates nothing, with \<open>endTime\<close> set the run completes and
  generates the dataset of the other statistic. (Lemma
  \<open>generateData_endTime_independent\<close> shows that two runs that both complete generate
  the same datasets, extras and statistic ids whatever \<open>endTime\<close> and the clock are.)
\<close>

theorem endTime_decides_outcome:
  "generateData example_env
     (example_chart\<lparr>statisticsData :=
        Some [(''sensor.a'', []), (''sensor.b'', [bucket 0 10 (Some 1) None])],
        endTime := None\<rparr>)
   = Inl TypeError
   \<and> (case generateData example_env
            (example_chart\<lparr>statisticsData :=
               Some [(''sensor.a'', []), (''sensor.b'', [bucket 0 10 (Some 1) None])],
               endTime := Some 5\<rparr>) of
        Inl err \<Rightarrow> False
      | Inr c' \<Rightarrow> map ds_data (chartData c') = [[\<lparr>pt_x = 0, pt_y = Some 1\<rparr>]])"
proof
  show "generateData example_env
     (example_chart\<lparr>statisticsData :=
        Some [(''sensor.a'', []), (''sensor.b'', [bucket 0 10 (Some 1) None])],
        endTime := None\<rparr>)
   = Inl TypeError"
    by (simp add: generateData_def computeEndTime_def example_chart_def Let_def)
  let ?sd = "[(''sensor.a'', []), (''sensor.b'', [bucket 0 10 (Some 1) None])]"
  let ?c = "example_chart\<lparr>statisticsData := Some ?sd, endTime := Some 5\<rparr>"
  have sd: "statisticsData ?c = Some ?sd" by simp
  obtain c' where gen: "generateData example_env ?c = Inr c'"
    using generateData_completes [OF sd, of example_env] by auto
  have t1: "typesOf example_env ?c [] = []"
    by (simp add: typesOf_def sortedTypes_def drawBands_def hasMean_def sortTypes_def
          example_env_def example_chart_def)
  have t2: "typesOf example_env ?c [bucket 0 10 (Some 1) None] = [T_mean]"
    by (simp add: typesOf_def sortedTypes_def drawBands_def hasMean_def sortTypes_def
          example_env_def example_chart_def bucket_def)
  have e1: "statisticDataSets example_env ?c md k sid [] = []" for md k sid
    using statisticDataSets_length [of example_env ?c md k sid "[]"]
    by (simp only: t1 list.size length_0_conv)
  have cd: "chartData c' =
      statisticDataSets example_env ?c (resolvedMetaData example_env ?c ?sd) (Suc 0) ''sensor.b''
        [bucket 0 10 (Some 1) None]"
    using generateData_datasets [OF gen sd] by (simp add: allDataSets_def e1)
  have g: "gapFrom (chartType ?c) None
             (filter keptRow (colRows example_env [T_mean] 0 None [bucket 0 10 (Some 1) None])) =
           [\<lparr>pt_x = 0, pt_y = Some 1\<rparr>]"
    by (simp add: keptRow_def rowValues_Cons rowValues_Nil js_index_def bucket_def)
  have "map ds_data (chartData c') = [[\<lparr>pt_x = 0, pt_y = Some 1\<rparr>]]"
    unfolding cd single_dataset [OF t2] g ..
  then show "case generateData example_env ?c of
        Inl err \<Rightarrow> False
      | Inr c' \<Rightarrow> map ds_data (chartData c') = [[\<lparr>pt_x = 0, pt_y = Some 1\<rparr>]]"
    by (simp add: gen)
qed

end
